theory Spec2Isabelle
  imports Complex_Main "HOL-Library.Word"
begin

section \<open>Tables\<close>

text \<open>
  The pipeline of \<^verbatim>\<open>etl.py\<close> works on Spark data frames. A cell is null, a boolean, a
  long, a double or a string; a finite double is modelled by the rational number it
  denotes, so that equality of cells is equality of the numbers. A row lists its cells
  under their column names, a data frame is a schema and its rows.
\<close>

datatype val = Null | BoolV bool | IntV int | DblV rat | StrV string

datatype error = AnalysisException | AttributeError | TypeError | ValueError
  | Py4JJavaError error

text \<open>
  Spark evaluates lazily: a column added by \<^verbatim>\<open>withColumn\<close> with a Python function is
  computed only when an action needs it, and a Python exception raised there reaches
  the driver wrapped in a Py4JJavaError. So a cell is either a value or the exception
  that computing it raises; a cell no action asks for is never computed.
\<close>

type_synonym row = "(string \<times> (error + val)) list"

record dataframe =
  columns :: "string list"
  rows :: "row list"

definition cell :: "row \<Rightarrow> string \<Rightarrow> error + val" where
  "cell r c = (case map_of r c of Some v \<Rightarrow> v | None \<Rightarrow> Inr Null)"

text \<open>The cells of a column, row by row.\<close>

definition key_values :: "string \<Rightarrow> dataframe \<Rightarrow> (error + val) list" where
  "key_values k df = map (\<lambda>r. cell r k) (rows df)"

text \<open>
  What the engine is free to choose and the machine it runs on fixes: which row of a
  group of duplicates survives \<^verbatim>\<open>dropDuplicates\<close>, how many rows a partition of a
  result holds (0 for a single partition), and the offset in seconds of the local time
  zone, in which \<^verbatim>\<open>datetime.fromtimestamp\<close> renders an instant.
\<close>

record engine =
  pick :: "row list \<Rightarrow> row"
  rows_per_partition :: nat
  tz_offset :: int

section \<open>Column expressions\<close>

datatype column =
    Col string
  | Lit val
  | EqC column column
  | AndC column column
  | Hour column
  | DayOfMonth column
  | WeekOfYear column
  | Month column
  | Year column
  | MonotonicallyIncreasingId

fun col_refs :: "column \<Rightarrow> string list" where
  "col_refs (Col c) = [c]"
| "col_refs (Lit v) = []"
| "col_refs (EqC a b) = col_refs a @ col_refs b"
| "col_refs (AndC a b) = col_refs a @ col_refs b"
| "col_refs (Hour a) = col_refs a"
| "col_refs (DayOfMonth a) = col_refs a"
| "col_refs (WeekOfYear a) = col_refs a"
| "col_refs (Month a) = col_refs a"
| "col_refs (Year a) = col_refs a"
| "col_refs MonotonicallyIncreasingId = []"

text \<open>
  Python reads \<^verbatim>\<open>bool(c)\<close> of a Column wherever it needs a truth value, as between the
  links of a chained comparison; PySpark's \<^verbatim>\<open>Column.__bool__\<close> raises ValueError
  ("Cannot convert column into bool").
\<close>

definition column_bool :: "column \<Rightarrow> error + bool" where
  "column_bool c = Inl ValueError"

text \<open>
  \<^verbatim>\<open>a == b == c == ...\<close> on Columns: Python evaluates \<^verbatim>\<open>a == b and b == c and ...\<close>,
  each \<^verbatim>\<open>==\<close> building a Column, each \<^verbatim>\<open>and\<close> asking for the truth value of its left
  operand; the last comparison is returned as it is. An operand is evaluated only when
  the chain reaches it, so the operands are given as the results of evaluating them.
\<close>

fun py_chain_eq :: "column \<Rightarrow> (error + column) list \<Rightarrow> error + column" where
  "py_chain_eq a [] = Inr a"
| "py_chain_eq a (Inl e # rest) = Inl e"
| "py_chain_eq a (Inr b # rest) =
     (if rest = [] then Inr (EqC a b)
      else (case column_bool (EqC a b) of
              Inl e \<Rightarrow> Inl e
            | Inr True \<Rightarrow> py_chain_eq b rest
            | Inr False \<Rightarrow> Inr (EqC a b)))"

text \<open>\<^verbatim>\<open>a & b\<close> on Columns, the left operand evaluated first.\<close>

definition col_and :: "error + column \<Rightarrow> error + column \<Rightarrow> error + column" where
  "col_and a b =
     (case a of Inl e \<Rightarrow> Inl e
      | Inr x \<Rightarrow> (case b of Inl e \<Rightarrow> Inl e | Inr y \<Rightarrow> Inr (AndC x y)))"

text \<open>\<^verbatim>\<open>df.name\<close>: AttributeError when the frame has no such column.\<close>

definition getattr :: "dataframe \<Rightarrow> string \<Rightarrow> error + column" where
  "getattr df c = (if c \<in> set (columns df) then Inr (Col c) else Inl AttributeError)"

text \<open>\<^verbatim>\<open>df['name']\<close>: AnalysisException when the frame has no such column.\<close>

definition getitem :: "dataframe \<Rightarrow> string \<Rightarrow> error + column" where
  "getitem df c = (if c \<in> set (columns df) then Inr (Col c) else Inl AnalysisException)"

section \<open>Calendar\<close>

text \<open>
  Days since 1970-01-01 to a date of the proleptic Gregorian calendar and back, by the
  era (400 years), the year of the era and the day of a year that starts in March.
\<close>

definition civil_from_days :: "int \<Rightarrow> int \<times> int \<times> int" where
  "civil_from_days z0 =
     (let z = z0 + 719468;
          era = z div 146097;
          doe = z mod 146097;
          yoe = (doe - doe div 1460 + doe div 36524 - doe div 146096) div 365;
          doy = doe - (365 * yoe + yoe div 4 - yoe div 100);
          mp = (5 * doy + 2) div 153;
          d = doy - (153 * mp + 2) div 5 + 1;
          m = (if mp < 10 then mp + 3 else mp - 9)
      in (yoe + era * 400 + (if m \<le> 2 then 1 else 0), m, d))"

definition days_from_civil :: "int \<Rightarrow> int \<Rightarrow> int \<Rightarrow> int" where
  "days_from_civil y0 m d =
     (let y = (if m \<le> 2 then y0 - 1 else y0);
          era = y div 400;
          yoe = y mod 400;
          mp = (if m > 2 then m - 3 else m + 9);
          doy = (153 * mp + 2) div 5 + d - 1;
          doe = yoe * 365 + yoe div 4 - yoe div 100 + doy
      in era * 146097 + doe - 719468)"

text \<open>
  The ISO-8601 week of a day: the week of the Thursday of its Monday-to-Sunday week,
  counted in that Thursday's year (1970-01-01 was a Thursday).
\<close>

definition iso_week :: "int \<Rightarrow> int" where
  "iso_week days =
     (let thursday = days - (days + 3) mod 7 + 3;
          y = fst (civil_from_days thursday)
      in (thursday - days_from_civil y 1 1) div 7 + 1)"

record datetime =
  dt_year :: int
  dt_month :: int
  dt_day :: int
  dt_hour :: int
  dt_minute :: int
  dt_second :: int
  dt_microsecond :: int

text \<open>
  \<^verbatim>\<open>datetime.fromtimestamp(x / 1000.0)\<close> for an integer \<^verbatim>\<open>x\<close> of milliseconds: the
  local date and time of the instant, to the microsecond. The quotient is a double;
  for \<open>\<bar>x\<bar> < 2 ^ 41\<close> (until 2039) its error is below a quarter of a microsecond, so
  the rounding to microseconds that \<^verbatim>\<open>fromtimestamp\<close> does returns \<open>1000 * x\<close>
  microseconds exactly, which is what the model computes. Python raises for a year
  outside 1..9999.
\<close>

definition fromtimestamp_ms :: "int \<Rightarrow> int \<Rightarrow> error + datetime" where
  "fromtimestamp_ms tz x =
     (let secs = x div 1000 + tz;
          (y, m, d) = civil_from_days (secs div 86400);
          sod = secs mod 86400
      in if y < 1 \<or> 9999 < y then Inl ValueError
         else Inr \<lparr>dt_year = y, dt_month = m, dt_day = d,
                   dt_hour = sod div 3600, dt_minute = sod mod 3600 div 60,
                   dt_second = sod mod 60, dt_microsecond = x mod 1000 * 1000\<rparr>)"

text \<open>Decimal digits, zero-padded to a width (\<^verbatim>\<open>%02d\<close>, \<^verbatim>\<open>%04d\<close>, \<^verbatim>\<open>%06d\<close>).\<close>

definition digit_char :: "int \<Rightarrow> char" where
  "digit_char d = ''0123456789'' ! nat (d mod 10)"

definition dec2 :: "int \<Rightarrow> string" where
  "dec2 n = [digit_char (n div 10), digit_char n]"

definition dec4 :: "int \<Rightarrow> string" where
  "dec4 n = dec2 (n div 100) @ dec2 n"

definition dec6 :: "int \<Rightarrow> string" where
  "dec6 n = dec2 (n div 10000) @ dec4 n"

text \<open>
  \<^verbatim>\<open>str(dt)\<close> of a datetime: \<^verbatim>\<open>YYYY-MM-DD HH:MM:SS\<close>, followed by \<^verbatim>\<open>.ffffff\<close> when
  the microsecond is not 0.
\<close>

definition str_datetime :: "datetime \<Rightarrow> string" where
  "str_datetime t =
     dec4 (dt_year t) @ ''-'' @ dec2 (dt_month t) @ ''-'' @ dec2 (dt_day t) @ '' '' @
     dec2 (dt_hour t) @ '':'' @ dec2 (dt_minute t) @ '':'' @ dec2 (dt_second t) @
     (if dt_microsecond t = 0 then [] else ''.'' @ dec6 (dt_microsecond t))"

definition digit_val :: "char \<Rightarrow> int option" where
  "digit_val c =
     map_of [(CHR ''0'', 0), (CHR ''1'', 1), (CHR ''2'', 2), (CHR ''3'', 3), (CHR ''4'', 4),
             (CHR ''5'', 5), (CHR ''6'', 6), (CHR ''7'', 7), (CHR ''8'', 8), (CHR ''9'', 9)] c"

fun undec :: "int \<Rightarrow> string \<Rightarrow> int option" where
  "undec acc [] = Some acc"
| "undec acc (c # cs) =
     (case digit_val c of None \<Rightarrow> None | Some d \<Rightarrow> undec (10 * acc + d) cs)"

text \<open>
  Reading a string of that layout back, as Spark's cast of a string to a timestamp
  does for the strings \<^verbatim>\<open>str\<close> writes; any other string, or one that names no
  day of the calendar or no time of the day, gives no value (a null).
\<close>

definition parse_datetime :: "string \<Rightarrow> datetime option" where
  "parse_datetime s =
     (if (length s = 19 \<or> length s = 26 \<and> s ! 19 = CHR ''.'') \<and>
         s ! 4 = CHR ''-'' \<and> s ! 7 = CHR ''-'' \<and> s ! 10 = CHR '' '' \<and>
         s ! 13 = CHR '':'' \<and> s ! 16 = CHR '':''
      then
        (case (undec 0 (take 4 s), undec 0 (take 2 (drop 5 s)), undec 0 (take 2 (drop 8 s)),
               undec 0 (take 2 (drop 11 s)), undec 0 (take 2 (drop 14 s)),
               undec 0 (take 2 (drop 17 s)), undec 0 (drop 20 s)) of
           (Some y, Some m, Some d, Some h, Some mi, Some sc, Some us) \<Rightarrow>
             if civil_from_days (days_from_civil y m d) = (y, m, d)
                \<and> h < 24 \<and> mi < 60 \<and> sc < 60
             then Some \<lparr>dt_year = y, dt_month = m, dt_day = d, dt_hour = h,
                        dt_minute = mi, dt_second = sc, dt_microsecond = us\<rparr>
             else None
         | _ \<Rightarrow> None)
      else None)"


section \<open>Evaluating a column on a row\<close>

definition datetime_of :: "val \<Rightarrow> datetime option" where
  "datetime_of v = (case v of StrV s \<Rightarrow> parse_datetime s | _ \<Rightarrow> None)"

definition field_of :: "(datetime \<Rightarrow> int) \<Rightarrow> val \<Rightarrow> val" where
  "field_of f v = (case datetime_of v of Some t \<Rightarrow> IntV (f t) | None \<Rightarrow> Null)"

definition week_of :: "datetime \<Rightarrow> int" where
  "week_of t = iso_week (days_from_civil (dt_year t) (dt_month t) (dt_day t))"

text \<open>
  SQL equality: null when an operand is null; a long and a double are compared as
  numbers. (Spark casts a string compared with a number; here they are unequal.)
\<close>

fun val_eq :: "val \<Rightarrow> val \<Rightarrow> val" where
  "val_eq Null b = Null"
| "val_eq a Null = Null"
| "val_eq (IntV i) (DblV q) = BoolV (of_int i = q)"
| "val_eq (DblV q) (IntV i) = BoolV (q = of_int i)"
| "val_eq a b = BoolV (a = b)"

text \<open>SQL conjunction, three-valued.\<close>

fun val_and :: "val \<Rightarrow> val \<Rightarrow> val" where
  "val_and (BoolV False) b = BoolV False"
| "val_and a (BoolV False) = BoolV False"
| "val_and (BoolV True) (BoolV True) = BoolV True"
| "val_and a b = Null"

definition lift1 :: "(val \<Rightarrow> val) \<Rightarrow> error + val \<Rightarrow> error + val" where
  "lift1 f a = (case a of Inl e \<Rightarrow> Inl e | Inr x \<Rightarrow> Inr (f x))"

definition lift2 :: "(val \<Rightarrow> val \<Rightarrow> val) \<Rightarrow> error + val \<Rightarrow> error + val \<Rightarrow> error + val" where
  "lift2 f a b =
     (case a of Inl e \<Rightarrow> Inl e
      | Inr x \<Rightarrow> (case b of Inl e \<Rightarrow> Inl e | Inr y \<Rightarrow> Inr (f x y)))"

text \<open>
  The value of a column on a row; \<open>rid\<close> is what \<^verbatim>\<open>monotonically_increasing_id\<close> gives
  the row, a signed 64-bit integer.
\<close>

fun eval_col :: "64 word \<Rightarrow> row \<Rightarrow> column \<Rightarrow> error + val" where
  "eval_col rid r (Col c) = cell r c"
| "eval_col rid r (Lit v) = Inr v"
| "eval_col rid r (EqC a b) = lift2 val_eq (eval_col rid r a) (eval_col rid r b)"
| "eval_col rid r (AndC a b) = lift2 val_and (eval_col rid r a) (eval_col rid r b)"
| "eval_col rid r (Hour a) = lift1 (field_of dt_hour) (eval_col rid r a)"
| "eval_col rid r (DayOfMonth a) = lift1 (field_of dt_day) (eval_col rid r a)"
| "eval_col rid r (WeekOfYear a) = lift1 (field_of week_of) (eval_col rid r a)"
| "eval_col rid r (Month a) = lift1 (field_of dt_month) (eval_col rid r a)"
| "eval_col rid r (Year a) = lift1 (field_of dt_year) (eval_col rid r a)"
| "eval_col rid r MonotonicallyIncreasingId = Inr (IntV (sint rid))"

section \<open>Operations on data frames\<close>

text \<open>
  \<^verbatim>\<open>monotonically_increasing_id\<close>: the partition index in the upper 31 bits, the index
  of the row within its partition in the lower 33 bits. The \<open>k\<close>-th row of a result
  whose partitions hold \<open>c\<close> rows each is row \<open>k mod c\<close> of partition \<open>k div c\<close>
  (with \<open>c = 0\<close>, row \<open>k\<close> of partition 0).
\<close>

definition row_id :: "nat \<Rightarrow> nat \<Rightarrow> 64 word" where
  "row_id c k = push_bit 33 (word_of_nat (k div c)) + word_of_nat (k mod c)"

fun map_result :: "('a \<Rightarrow> error + 'b) \<Rightarrow> 'a list \<Rightarrow> error + 'b list" where
  "map_result f [] = Inr []"
| "map_result f (x # xs) =
     (case f x of Inl e \<Rightarrow> Inl e
      | Inr y \<Rightarrow> (case map_result f xs of Inl e \<Rightarrow> Inl e | Inr ys \<Rightarrow> Inr (y # ys)))"

definition select_row :: "(column \<times> string) list \<Rightarrow> 64 word \<Rightarrow> row \<Rightarrow> error + row" where
  "select_row items rid r =
     map_result (\<lambda>(c, a). case eval_col rid r c of
                             Inl e \<Rightarrow> Inl (Py4JJavaError e)
                           | Inr v \<Rightarrow> Inr (a, Inr v)) items"

text \<open>
  \<^verbatim>\<open>df.select(c1.alias(a1), ...)\<close>: an AnalysisException when a column that is referred
  to is missing from the frame or there more than once; then each row is computed,
  which here computes every cell the select list needs.
\<close>

definition select :: "engine \<Rightarrow> (column \<times> string) list \<Rightarrow> dataframe \<Rightarrow> error + dataframe" where
  "select e items df =
     (if \<forall>c \<in> set (concat (map (col_refs \<circ> fst) items)). count_list (columns df) c = 1
      then (case map_result (\<lambda>(k, r). select_row items (row_id (rows_per_partition e) k) r)
                    (enumerate 0 (rows df)) of
              Inl err \<Rightarrow> Inl err
            | Inr rs \<Rightarrow> Inr \<lparr>columns = map snd items, rows = rs\<rparr>)
      else Inl AnalysisException)"

text \<open>\<^verbatim>\<open>df['a', 'b', ...]\<close> selects the named columns.\<close>

definition project :: "engine \<Rightarrow> string list \<Rightarrow> dataframe \<Rightarrow> error + dataframe" where
  "project e cs df = select e (map (\<lambda>c. (Col c, c)) cs) df"

text \<open>\<^verbatim>\<open>df.filter(c)\<close> keeps the rows on which the condition is true.\<close>

definition filter_rows :: "column \<Rightarrow> dataframe \<Rightarrow> dataframe" where
  "filter_rows c df = df\<lparr>rows := filter (\<lambda>r. eval_col 0 r c = Inr (BoolV True)) (rows df)\<rparr>"

text \<open>
  \<^verbatim>\<open>dropDuplicates([k])\<close>: of the rows that agree on \<open>k\<close> (nulls agree with each other)
  one is kept, the one the engine picks.
\<close>

function dedup :: "(row list \<Rightarrow> row) \<Rightarrow> string \<Rightarrow> row list \<Rightarrow> row list" where
  "dedup p k [] = []"
| "dedup p k (r # rs) =
     p (r # filter (\<lambda>x. cell x k = cell r k) rs) # dedup p k (filter (\<lambda>x. cell x k \<noteq> cell r k) rs)"
  by pat_completeness auto
termination
  by (relation "measure (\<lambda>(p, k, rs). length rs)") (auto simp: less_Suc_eq_le)

definition dropDuplicates :: "engine \<Rightarrow> string \<Rightarrow> dataframe \<Rightarrow> error + dataframe" where
  "dropDuplicates e k df =
     (if k \<in> set (columns df) then Inr (df\<lparr>rows := dedup (pick e) k (rows df)\<rparr>)
      else Inl AnalysisException)"

text \<open>
  \<^verbatim>\<open>df.withColumn(name, f(df.c))\<close> for a Python function \<open>f\<close>: the column replaces one of
  that name or is added last; its cells are left to be computed.
\<close>

definition set_cell :: "string \<Rightarrow> error + val \<Rightarrow> row \<Rightarrow> row" where
  "set_cell name v r =
     (if name \<in> fst ` set r then map (\<lambda>(k, x). if k = name then (k, v) else (k, x)) r
      else r @ [(name, v)])"

definition withColumn :: "string \<Rightarrow> (val \<Rightarrow> error + val) \<Rightarrow> string \<Rightarrow> dataframe \<Rightarrow> dataframe" where
  "withColumn name f c df =
     \<lparr>columns = (if name \<in> set (columns df) then columns df else columns df @ [name]),
      rows = map (\<lambda>r. set_cell name (case cell r c of Inl e \<Rightarrow> Inl e | Inr v \<Rightarrow> f v) r) (rows df)\<rparr>"

text \<open>
  \<^verbatim>\<open>df.join(other, cond, 'inner')\<close>: the pairs of rows on which the condition is true;
  computing the condition computes the cells it refers to.
\<close>

definition join_pair :: "column \<Rightarrow> row \<Rightarrow> row \<Rightarrow> error + (row \<times> bool)" where
  "join_pair c r q =
     (case eval_col 0 (r @ q) c of
        Inl e \<Rightarrow> Inl (Py4JJavaError e)
      | Inr v \<Rightarrow> Inr (r @ q, v = BoolV True))"

definition join_inner :: "dataframe \<Rightarrow> dataframe \<Rightarrow> column \<Rightarrow> error + dataframe" where
  "join_inner df other c =
     (case map_result (\<lambda>r. map_result (join_pair c r) (rows other)) (rows df) of
        Inl e \<Rightarrow> Inl e
      | Inr pss \<Rightarrow> Inr \<lparr>columns = columns df @ columns other,
                        rows = map fst (filter snd (concat pss))\<rparr>)"

section \<open>Python helpers\<close>

text \<open>\<^verbatim>\<open>os.path.join(a, b)\<close> for a relative \<open>b\<close>.\<close>

definition path_join :: "string \<Rightarrow> string \<Rightarrow> string" where
  "path_join a b = (if a = [] then b else if last a = CHR ''/'' then a @ b else a @ ''/'' @ b)"

text \<open>\<^verbatim>\<open>str(i)\<close> of an integer.\<close>

function str_digits :: "int \<Rightarrow> string" where
  "str_digits n = (if n < 10 then [digit_char n] else str_digits (n div 10) @ [digit_char n])"
  by pat_completeness auto
termination
  by (relation "measure nat") auto

declare str_digits.simps [simp del]

definition str_int :: "int \<Rightarrow> string" where
  "str_int i = (if i < 0 then CHR ''-'' # str_digits (- i) else str_digits i)"

text \<open>
  \<^verbatim>\<open>int(x)\<close> of a cell handed to a Python function: a long as it is, a double
  truncated towards zero, a string of digits (with a sign) read as a number, TypeError
  for None. (Blanks and underscores, which \<^verbatim>\<open>int\<close> also reads, are left out.)
\<close>

definition trunc_rat :: "rat \<Rightarrow> int" where
  "trunc_rat q = (if 0 \<le> q then \<lfloor>q\<rfloor> else \<lceil>q\<rceil>)"

definition py_int :: "val \<Rightarrow> error + int" where
  "py_int v =
     (case v of
        Null \<Rightarrow> Inl TypeError
      | BoolV b \<Rightarrow> Inr (if b then 1 else 0)
      | IntV i \<Rightarrow> Inr i
      | DblV q \<Rightarrow> Inr (trunc_rat q)
      | StrV s \<Rightarrow>
          (case s of
             [] \<Rightarrow> Inl ValueError
           | c # cs \<Rightarrow>
               if c = CHR ''-'' \<or> c = CHR ''+''
               then (if cs = [] then Inl ValueError
                     else case undec 0 cs of
                            None \<Rightarrow> Inl ValueError
                          | Some n \<Rightarrow> Inr (if c = CHR ''-'' then - n else n))
               else (case undec 0 s of None \<Rightarrow> Inl ValueError | Some n \<Rightarrow> Inr n)))"

text \<open>
  \<^verbatim>\<open>get_timestamp = udf(lambda x: str(int(int(x)/1000)))\<close>: the quotient is a double and
  \<^verbatim>\<open>int\<close> truncates it towards zero.
\<close>

definition get_timestamp :: "val \<Rightarrow> error + val" where
  "get_timestamp x =
     (case py_int x of
        Inl e \<Rightarrow> Inl e
      | Inr i \<Rightarrow> Inr (StrV (str_int (if 0 \<le> i then i div 1000 else - (- i div 1000)))))"

text \<open>\<^verbatim>\<open>get_datetime = udf(lambda x: str(datetime.fromtimestamp(int(x) / 1000.0)))\<close>\<close>

definition get_datetime :: "int \<Rightarrow> val \<Rightarrow> error + val" where
  "get_datetime tz x =
     (case py_int x of
        Inl e \<Rightarrow> Inl e
      | Inr i \<Rightarrow> (case fromtimestamp_ms tz i of
                   Inl e \<Rightarrow> Inl e
                 | Inr t \<Rightarrow> Inr (StrV (str_datetime t))))"

section \<open>Storage\<close>

text \<open>
  The world of a run: what \<^verbatim>\<open>spark.read.json\<close> finds under a path, the Parquet data
  sets under their paths, each with the columns it is partitioned by, and the lines
  printed so far.
\<close>

record dataset =
  partitioned_by :: "string list"
  table :: dataframe

record world =
  json_files :: "string \<Rightarrow> dataframe option"
  parquet_files :: "string \<Rightarrow> dataset option"
  stdout :: "string list"

datatype save_mode = Append | Overwrite | ErrorIfExists | Ignore

definition read_json :: "world \<Rightarrow> string \<Rightarrow> error + dataframe" where
  "read_json w path =
     (case json_files w path of None \<Rightarrow> Inl AnalysisException | Some df \<Rightarrow> Inr df)"

text \<open>
  \<^verbatim>\<open>df.write.partitionBy(cols).parquet(path, mode)\<close>. A partition column must be a
  column of the frame, and not every column may be one. Overwriting deletes what is
  under the path and writes the frame; appending adds the rows to what is there.
\<close>

definition write_parquet ::
  "dataframe \<Rightarrow> string list \<Rightarrow> string \<Rightarrow> save_mode \<Rightarrow> world \<Rightarrow> error + world" where
  "write_parquet df parts path mode w =
     (let new = \<lparr>partitioned_by = parts, table = df\<rparr>;
          put = (\<lambda>d. w\<lparr>parquet_files := (parquet_files w)(path \<mapsto> d)\<rparr>)
      in if \<not> set parts \<subseteq> set (columns df) \<or> (parts \<noteq> [] \<and> set (columns df) \<subseteq> set parts)
         then Inl AnalysisException
         else (case (mode, parquet_files w path) of
                 (Overwrite, _) \<Rightarrow> Inr (put new)
               | (_, None) \<Rightarrow> Inr (put new)
               | (Append, Some old) \<Rightarrow>
                   Inr (put (old\<lparr>table := (table old)\<lparr>rows := rows (table old) @ rows df\<rparr>\<rparr>))
               | (ErrorIfExists, Some old) \<Rightarrow> Inl AnalysisException
               | (Ignore, Some old) \<Rightarrow> Inr w))"

definition print :: "string \<Rightarrow> world \<Rightarrow> world" where
  "print line w = w\<lparr>stdout := stdout w @ [line]\<rparr>"

text \<open>
  A step of the script ends in a world and, when it raised, the exception; the script
  stops at the first exception, and what was written before stays written.
\<close>

type_synonym outcome = "world \<times> error option"

definition and_then :: "outcome \<Rightarrow> (world \<Rightarrow> outcome) \<Rightarrow> outcome" where
  "and_then r f = (case r of (w, None) \<Rightarrow> f w | (w, Some e) \<Rightarrow> (w, Some e))"

text \<open>
  Writing a table that was computed without an exception, then printing the line that
  follows the write in the script.
\<close>

definition write_table ::
  "error + dataframe \<Rightarrow> string list \<Rightarrow> string \<Rightarrow> string \<Rightarrow> world \<Rightarrow> outcome" where
  "write_table t parts path line w =
     (case t of
        Inl e \<Rightarrow> (w, Some e)
      | Inr df \<Rightarrow> (case write_parquet df parts path Overwrite w of
                    Inl e \<Rightarrow> (w, Some e)
                  | Inr w' \<Rightarrow> (print line w', None)))"

definition bind_frame ::
  "error + dataframe \<Rightarrow> (dataframe \<Rightarrow> error + dataframe) \<Rightarrow> error + dataframe" where
  "bind_frame t f = (case t of Inl e \<Rightarrow> Inl e | Inr df \<Rightarrow> f df)"

section \<open>The script\<close>

definition song_data_path :: "string \<Rightarrow> string" where
  "song_data_path input_data = path_join input_data ''song_data/*/*/*/*.json''"

definition log_data_path :: "string \<Rightarrow> string" where
  "log_data_path input_data = path_join input_data ''log_data/*/*/*.json''"

definition songs_table :: "engine \<Rightarrow> dataframe \<Rightarrow> error + dataframe" where
  "songs_table e df =
     bind_frame (project e [''song_id'', ''title'', ''artist_id'', ''year'', ''duration''] df)
       (dropDuplicates e ''song_id'')"

definition artists_table :: "engine \<Rightarrow> dataframe \<Rightarrow> error + dataframe" where
  "artists_table e df =
     bind_frame (project e [''artist_id'', ''artist_name'', ''artist_location'',
                            ''artist_latitude'', ''artist_longitude''] df)
       (dropDuplicates e ''artist_id'')"

definition process_song_data :: "engine \<Rightarrow> string \<Rightarrow> string \<Rightarrow> world \<Rightarrow> outcome" where
  "process_song_data e input_data output_data w =
     (case read_json w (song_data_path input_data) of
        Inl err \<Rightarrow> (w, Some err)
      | Inr df \<Rightarrow>
          and_then
            (write_table (songs_table e df) [''year'', ''artist_id'']
               (path_join output_data ''songs.parquet'') ''------>songs.parquet is completed'' w)
            (write_table (artists_table e df) []
               (path_join output_data ''artists.parquet'') ''------>artists.parquet is completed''))"

text \<open>\<^verbatim>\<open>df.filter(df['page']=='NextSong')\<close>\<close>

definition next_song :: "dataframe \<Rightarrow> error + dataframe" where
  "next_song df =
     (case getitem df ''page'' of
        Inl e \<Rightarrow> Inl e
      | Inr c \<Rightarrow> Inr (filter_rows (EqC c (Lit (StrV ''NextSong''))) df))"

definition users_table :: "engine \<Rightarrow> dataframe \<Rightarrow> error + dataframe" where
  "users_table e df =
     bind_frame (project e [''userId'', ''firstName'', ''lastName'', ''gender'', ''level''] df)
       (dropDuplicates e ''userId'')"

definition add_timestamp :: "dataframe \<Rightarrow> error + dataframe" where
  "add_timestamp df =
     (case getattr df ''ts'' of
        Inl e \<Rightarrow> Inl e
      | Inr c \<Rightarrow> Inr (withColumn ''timestamp'' get_timestamp ''ts'' df))"

definition add_datetime :: "engine \<Rightarrow> dataframe \<Rightarrow> error + dataframe" where
  "add_datetime e df =
     (case getattr df ''ts'' of
        Inl err \<Rightarrow> Inl err
      | Inr c \<Rightarrow> Inr (withColumn ''datetime'' (get_datetime (tz_offset e)) ''ts'' df))"

definition time_items :: "(column \<times> string) list" where
  "time_items =
     [(Col ''datetime'', ''start_time''),
      (Hour (Col ''datetime''), ''hour''),
      (DayOfMonth (Col ''datetime''), ''day''),
      (WeekOfYear (Col ''datetime''), ''week''),
      (Month (Col ''datetime''), ''month''),
      (Year (Col ''datetime''), ''year'')]"

definition time_table :: "engine \<Rightarrow> dataframe \<Rightarrow> error + dataframe" where
  "time_table e df = bind_frame (select e time_items df) (dropDuplicates e ''start_time'')"

definition songplays_items :: "(column \<times> string) list" where
  "songplays_items =
     [(MonotonicallyIncreasingId, ''songplay_id''),
      (Col ''datetime'', ''start_time''),
      (Col ''userId'', ''user_id''),
      (Col ''level'', ''level''),
      (Col ''song_id'', ''song_id''),
      (Col ''artist_id'', ''artist_id''),
      (Col ''sessionId'', ''session_id''),
      (Col ''location'', ''location''),
      (Col ''userAgent'', ''user_agent''),
      (Year (Col ''datetime''), ''year''),
      (Month (Col ''datetime''), ''month'')]"

definition songplays_table :: "engine \<Rightarrow> dataframe \<Rightarrow> error + dataframe" where
  "songplays_table e joined = select e songplays_items joined"

text \<open>
  The join condition of the script,
  \<^verbatim>\<open>song_df.title == df.song & song_df.artist_name == df.artist & song_df.duration == df.length\<close>.
  In Python \<^verbatim>\<open>&\<close> binds tighter than \<^verbatim>\<open>==\<close>, so this is the chained comparison
  \<^verbatim>\<open>song_df.title == (df.song & song_df.artist_name) == (df.artist & song_df.duration) == df.length\<close>.
\<close>

definition join_condition :: "dataframe \<Rightarrow> dataframe \<Rightarrow> error + column" where
  "join_condition df song_df =
     (case getattr song_df ''title'' of
        Inl e \<Rightarrow> Inl e
      | Inr a \<Rightarrow>
          py_chain_eq a
            [col_and (getattr df ''song'') (getattr song_df ''artist_name''),
             col_and (getattr df ''artist'') (getattr song_df ''duration''),
             getattr df ''length''])"

text \<open>
  \<^verbatim>\<open>process_log_data\<close> from the line that adds the \<^verbatim>\<open>datetime\<close> column on, for the frame
  \<open>df\<close> of the song-play events. The join condition is a parameter \<open>jc\<close>, so that what
  the lines after it do can be stated for every condition; the script's own is
  \<open>join_condition\<close>.
\<close>

definition log_data_from ::
  "(dataframe \<Rightarrow> dataframe \<Rightarrow> error + column) \<Rightarrow> engine \<Rightarrow> string \<Rightarrow> string \<Rightarrow>
   dataframe \<Rightarrow> world \<Rightarrow> outcome" where
  "log_data_from jc e input_data output_data df w =
     (case add_datetime e df of
        Inl err \<Rightarrow> (w, Some err)
      | Inr df2 \<Rightarrow>
          and_then
            (write_table (time_table e df2) [''year'', ''month'']
               (path_join output_data ''time.parquet'') ''------>time.parquet is completed'' w)
            (\<lambda>w1. case bind_frame (read_json w1 (song_data_path input_data))
                          (dropDuplicates e ''song_id'') of
                     Inl err \<Rightarrow> (w1, Some err)
                   | Inr song_df \<Rightarrow>
                       (case jc df2 song_df of
                          Inl err \<Rightarrow> (w1, Some err)
                        | Inr c \<Rightarrow>
                            write_table (bind_frame (join_inner df2 song_df c) (songplays_table e))
                              [''year'', ''month''] (path_join output_data ''songplays.parquet'')
                              ''------>songplays.parquet is completed'' w1)))"

text \<open>The lines of \<^verbatim>\<open>process_log_data\<close> up to the users table, then \<open>rest\<close>.\<close>

definition log_data_upto ::
  "engine \<Rightarrow> string \<Rightarrow> string \<Rightarrow> (dataframe \<Rightarrow> world \<Rightarrow> outcome) \<Rightarrow> world \<Rightarrow> outcome" where
  "log_data_upto e input_data output_data rest w =
     (let w0 = print (log_data_path input_data) w
      in case bind_frame (read_json w0 (log_data_path input_data)) next_song of
           Inl err \<Rightarrow> (w0, Some err)
         | Inr df \<Rightarrow>
             and_then
               (write_table (users_table e df) []
                  (path_join output_data ''users.parquet'') ''------>users.parquet is completed'' w0)
               (rest df))"

definition log_data_with ::
  "(dataframe \<Rightarrow> dataframe \<Rightarrow> error + column) \<Rightarrow> engine \<Rightarrow> string \<Rightarrow> string \<Rightarrow>
   world \<Rightarrow> outcome" where
  "log_data_with jc e input_data output_data =
     log_data_upto e input_data output_data
       (\<lambda>df w1. case add_timestamp df of
                   Inl err \<Rightarrow> (w1, Some err)
                 | Inr df1 \<Rightarrow> log_data_from jc e input_data output_data df1 w1)"

definition process_log_data :: "engine \<Rightarrow> string \<Rightarrow> string \<Rightarrow> world \<Rightarrow> outcome" where
  "process_log_data = log_data_with join_condition"

definition main :: "engine \<Rightarrow> world \<Rightarrow> outcome" where
  "main e w =
     and_then (process_song_data e ''s3a://udacity-dend/'' [] w)
       (process_log_data e ''s3a://udacity-dend/'' [])"

text \<open>
  The script without the two lines that add the \<^verbatim>\<open>timestamp\<close> column, to compare the
  script with.
\<close>

definition log_data_without_timestamp ::
  "(dataframe \<Rightarrow> dataframe \<Rightarrow> error + column) \<Rightarrow> engine \<Rightarrow> string \<Rightarrow> string \<Rightarrow>
   world \<Rightarrow> outcome" where
  "log_data_without_timestamp jc e input_data output_data =
     log_data_upto e input_data output_data (log_data_from jc e input_data output_data)"

section \<open>Song-play events\<close>

text \<open>An event row whose \<^verbatim>\<open>page\<close> field is \<^verbatim>\<open>NextSong\<close>.\<close>

definition is_next_song :: "row \<Rightarrow> bool" where
  "is_next_song r = (cell r ''page'' = Inr (StrV ''NextSong''))"

text \<open>What a run leaves to be seen: the data sets, the lines printed, the exception.\<close>

definition outputs :: "outcome \<Rightarrow> (string \<Rightarrow> dataset option) \<times> string list \<times> error option" where
  "outputs r = (parquet_files (fst r), stdout (fst r), snd r)"

text \<open>Rows that hold the same cells, but for the one named \<^verbatim>\<open>timestamp\<close>.\<close>

abbreviation same_but_timestamp :: "row \<Rightarrow> row \<Rightarrow> bool" where
  "same_but_timestamp r r' \<equiv> (\<forall>k. k \<noteq> ''timestamp'' \<longrightarrow> map_of r k = map_of r' k)"

section \<open>The layout of the output\<close>

text \<open>
  The data sets under an output root and the columns each is partitioned by, and the
  worlds in which every data set that exists under one of these paths is partitioned
  so.
\<close>

definition output_layout :: "(string \<times> string list) list" where
  "output_layout =
     [(''songs.parquet'', [''year'', ''artist_id'']),
      (''artists.parquet'', []),
      (''users.parquet'', []),
      (''time.parquet'', [''year'', ''month'']),
      (''songplays.parquet'', [''year'', ''month''])]"

definition partition_layout :: "string \<Rightarrow> world \<Rightarrow> bool" where
  "partition_layout output_data w =
     (\<forall>(name, parts) \<in> set output_layout.
        case parquet_files w (path_join output_data name) of
          None \<Rightarrow> True
        | Some d \<Rightarrow> partitioned_by d = parts)"

section \<open>Example inputs\<close>

text \<open>
  A catalog of one song and a log of events of one user, under the input root \<^verbatim>\<open>in\<close>;
  nothing has been written yet.
\<close>

definition example_engine :: engine where
  "example_engine = \<lparr>pick = hd, rows_per_partition = 0, tz_offset = 0\<rparr>"

definition example_catalog :: dataframe where
  "example_catalog =
     \<lparr>columns = [''song_id'', ''title'', ''artist_id'', ''artist_name'', ''year'', ''duration'',
                 ''artist_location'', ''artist_latitude'', ''artist_longitude''],
      rows = [[(''song_id'', Inr (StrV ''S1'')), (''title'', Inr (StrV ''Test'')),
               (''artist_id'', Inr (StrV ''A1'')), (''artist_name'', Inr (StrV ''Artist1'')),
               (''year'', Inr (IntV 2000)), (''duration'', Inr (DblV 200)),
               (''artist_location'', Inr Null), (''artist_latitude'', Inr Null),
               (''artist_longitude'', Inr Null)]]\<rparr>"

definition example_event :: "string \<Rightarrow> string \<Rightarrow> rat \<Rightarrow> int \<Rightarrow> row" where
  "example_event page level len ts =
     [(''page'', Inr (StrV page)), (''userId'', Inr (StrV ''U1'')),
      (''firstName'', Inr (StrV ''Ann'')), (''lastName'', Inr (StrV ''Lee'')),
      (''gender'', Inr (StrV ''F'')), (''level'', Inr (StrV level)),
      (''song'', Inr (StrV ''Test'')), (''artist'', Inr (StrV ''Artist1'')),
      (''length'', Inr (DblV len)), (''ts'', Inr (IntV ts)),
      (''sessionId'', Inr (IntV 1)), (''location'', Inr (StrV ''Oslo'')),
      (''userAgent'', Inr (StrV ''Mozilla''))]"

definition example_events :: "row list \<Rightarrow> dataframe" where
  "example_events rs =
     \<lparr>columns = [''page'', ''userId'', ''firstName'', ''lastName'', ''gender'', ''level'',
                 ''song'', ''artist'', ''length'', ''ts'', ''sessionId'', ''location'',
                 ''userAgent''],
      rows = rs\<rparr>"

definition example_world :: "row list \<Rightarrow> world" where
  "example_world rs =
     \<lparr>json_files = [song_data_path ''in'' \<mapsto> example_catalog,
                     log_data_path ''in'' \<mapsto> example_events rs],
      parquet_files = Map.empty, stdout = []\<rparr>"

text \<open>Three joined rows, for an engine that puts two rows in a partition.\<close>

definition example_joined_row :: "string \<Rightarrow> string \<Rightarrow> row" where
  "example_joined_row start user =
     [(''datetime'', Inr (StrV start)), (''userId'', Inr (StrV user)),
      (''level'', Inr (StrV ''free'')), (''song_id'', Inr (StrV ''S1'')),
      (''artist_id'', Inr (StrV ''A1'')), (''sessionId'', Inr (IntV 1)),
      (''location'', Inr (StrV ''Oslo'')), (''userAgent'', Inr (StrV ''Mozilla''))]"

definition example_joined :: dataframe where
  "example_joined =
     \<lparr>columns = [''datetime'', ''userId'', ''level'', ''song_id'', ''artist_id'',
                 ''sessionId'', ''location'', ''userAgent''],
      rows = [example_joined_row ''2018-11-05 17:46:40'' ''U1'',
              example_joined_row ''2018-11-05 17:46:41.500000'' ''U2'',
              example_joined_row ''2018-11-05 17:46:40'' ''U3'']\<rparr>"

definition example_engine2 :: engine where
  "example_engine2 = \<lparr>pick = hd, rows_per_partition = 2, tz_offset = 0\<rparr>"

text \<open>
  The condition the join is meant to test, after the specification: the three
  equalities joined by \<^verbatim>\<open>&\<close>, each in its own parentheses. It is not the condition
  of the script, which is \<open>join_condition\<close>; it is here to compare the script with.
\<close>

definition three_way_and :: "dataframe \<Rightarrow> dataframe \<Rightarrow> error + column" where
  "three_way_and df song_df =
     Inr (AndC (AndC (EqC (Col ''title'') (Col ''song''))
                     (EqC (Col ''artist_name'') (Col ''artist'')))
               (EqC (Col ''duration'') (Col ''length'')))"

section \<open>Frames: basic facts\<close>

lemma select_columns: "select e items df = Inr t \<Longrightarrow> columns t = map snd items"
  by (auto simp: select_def split: if_splits sum.splits)

lemma dropDuplicates_columns: "dropDuplicates e k df = Inr t \<Longrightarrow> columns t = columns df"
  by (auto simp: dropDuplicates_def split: if_splits)

lemma bind_frame_Inr: "bind_frame x f = Inr t \<Longrightarrow> \<exists>d. x = Inr d \<and> f d = Inr t"
  by (cases x) (auto simp: bind_frame_def)

lemma map_result_Inr:
  "map_result f xs = Inr ys \<Longrightarrow> list_all2 (\<lambda>x y. f x = Inr y) xs ys"
  by (induction xs arbitrary: ys) (auto split: sum.splits)

lemma select_row_project:
  assumes "select_row (map (\<lambda>c. (Col c, c)) cs) rid r = Inr r'"
  shows "r' = map (\<lambda>c. (c, cell r c)) cs"
  using assms
proof (induction cs arbitrary: r')
  case Nil
  then show ?case by (simp add: select_row_def)
next
  case (Cons c cs)
  then show ?case
    by (auto simp: select_row_def split: sum.splits)
qed

lemma cell_projected: "k \<in> set cs \<Longrightarrow> cell (map (\<lambda>c. (c, cell r c)) cs) k = cell r k"
  by (simp add: cell_def map_of_map_restrict)

lemma project_rows:
  assumes "project e cs df = Inr t"
  shows "rows t = map (\<lambda>r. map (\<lambda>c. (c, cell r c)) cs) (rows df)"
proof -
  from assms have "map_result (\<lambda>(k, r). select_row (map (\<lambda>c. (Col c, c)) cs)
        (row_id (rows_per_partition e) k) r) (enumerate 0 (rows df)) = Inr (rows t)"
    by (auto simp: project_def select_def split: if_splits sum.splits)
  then have "list_all2 (\<lambda>x y. (case x of (k, r) \<Rightarrow> select_row (map (\<lambda>c. (Col c, c)) cs)
        (row_id (rows_per_partition e) k) r) = Inr y) (enumerate 0 (rows df)) (rows t)"
    by (rule map_result_Inr)
  then have "list_all2 (\<lambda>x y. y = map (\<lambda>c. (c, cell (snd x) c)) cs) (enumerate 0 (rows df)) (rows t)"
    by (rule list_all2_mono) (auto dest: select_row_project)
  then have "rows t = map (\<lambda>x. map (\<lambda>c. (c, cell (snd x) c)) cs) (enumerate 0 (rows df))"
    by (induction rule: list_all2_induct) auto
  also have "\<dots> = map (\<lambda>r. map (\<lambda>c. (c, cell r c)) cs) (map snd (enumerate 0 (rows df)))"
    by (simp only: map_map comp_def)
  finally show ?thesis by simp
qed

lemma project_key_values:
  "project e cs df = Inr t \<Longrightarrow> k \<in> set cs \<Longrightarrow> key_values k t = key_values k df"
  by (simp add: key_values_def project_rows cell_projected comp_def)

lemma dedup_head:
  assumes "\<forall>g. g \<noteq> [] \<longrightarrow> p g \<in> set g"
  shows "p (r # filter (\<lambda>x. cell x k = cell r k) rs) \<in> set (r # rs) \<and>
         cell (p (r # filter (\<lambda>x. cell x k = cell r k) rs)) k = cell r k"
proof -
  have "p (r # filter (\<lambda>x. cell x k = cell r k) rs) \<in> set (r # filter (\<lambda>x. cell x k = cell r k) rs)"
    using assms by blast
  then show ?thesis by auto
qed

lemma dedup_subset:
  assumes "\<forall>g. g \<noteq> [] \<longrightarrow> p g \<in> set g"
  shows "set (dedup p k rs) \<subseteq> set rs"
proof (induction "length rs" arbitrary: rs rule: less_induct)
  case less
  show ?case
  proof (cases rs)
    case Nil
    then show ?thesis by simp
  next
    case (Cons r rs')
    have "length (filter (\<lambda>x. cell x k \<noteq> cell r k) rs') < length rs"
      using Cons by (simp add: less_Suc_eq_le)
    then have "set (dedup p k (filter (\<lambda>x. cell x k \<noteq> cell r k) rs'))
                 \<subseteq> set (filter (\<lambda>x. cell x k \<noteq> cell r k) rs')"
      by (rule less)
    with dedup_head [OF assms, of r k rs'] Cons show ?thesis by auto
  qed
qed

lemma dedup_keys_subset:
  assumes "\<forall>g. g \<noteq> [] \<longrightarrow> p g \<in> set g"
  shows "set (map (\<lambda>r. cell r k) (dedup p k rs)) \<subseteq> set (map (\<lambda>r. cell r k) rs)"
  using dedup_subset [OF assms, of k rs] by auto

lemma dedup_distinct:
  assumes "\<forall>g. g \<noteq> [] \<longrightarrow> p g \<in> set g"
  shows "distinct (map (\<lambda>r. cell r k) (dedup p k rs))"
proof (induction "length rs" arbitrary: rs rule: less_induct)
  case less
  show ?case
  proof (cases rs)
    case Nil
    then show ?thesis by simp
  next
    case (Cons r rs')
    let ?rest = "filter (\<lambda>x. cell x k \<noteq> cell r k) rs'"
    have len: "length ?rest < length rs"
      using Cons by (simp add: less_Suc_eq_le)
    have "distinct (map (\<lambda>r. cell r k) (dedup p k ?rest))"
      using len by (rule less)
    moreover have "cell r k \<notin> set (map (\<lambda>r. cell r k) (dedup p k ?rest))"
      using dedup_subset [OF assms, of k ?rest] by auto
    ultimately show ?thesis
      using dedup_head [OF assms, of r k rs'] Cons by simp
  qed
qed

lemma dedup_length: "length (dedup p k rs) \<le> length rs"
proof (induction "length rs" arbitrary: rs rule: less_induct)
  case less
  show ?case
  proof (cases rs)
    case Nil
    then show ?thesis by simp
  next
    case (Cons r rs')
    let ?rest = "filter (\<lambda>x. cell x k \<noteq> cell r k) rs'"
    have len: "length ?rest < length rs"
      using Cons by (simp add: less_Suc_eq_le)
    have "length (dedup p k ?rest) \<le> length ?rest"
      using len by (rule less)
    also have "\<dots> \<le> length rs'" by simp
    finally show ?thesis using Cons by simp
  qed
qed

lemma dropDuplicates_keys:
  assumes "\<forall>g. g \<noteq> [] \<longrightarrow> pick e g \<in> set g" and "dropDuplicates e k df = Inr t"
  shows "distinct (key_values k t) \<and> length (rows t) \<le> length (rows df) \<and>
         set (key_values k t) \<subseteq> set (key_values k df)"
proof -
  from assms(2) have t: "rows t = dedup (pick e) k (rows df)"
    by (auto simp: dropDuplicates_def split: if_splits)
  show ?thesis
    unfolding key_values_def t
    using dedup_distinct [OF assms(1)] dedup_length dedup_keys_subset [OF assms(1)] by blast
qed

lemma project_length: "project e cs df = Inr t \<Longrightarrow> length (rows t) = length (rows df)"
  by (simp add: project_rows)

lemma extract_keys:
  assumes "\<forall>g. g \<noteq> [] \<longrightarrow> pick e g \<in> set g"
    and "bind_frame (project e cs df) (dropDuplicates e k) = Inr t" and "k \<in> set cs"
  shows "distinct (key_values k t) \<and> length (rows t) \<le> length (rows df) \<and>
         set (key_values k t) \<subseteq> set (key_values k df)"
proof -
  from assms(2) obtain d where d: "project e cs df = Inr d" "dropDuplicates e k d = Inr t"
    by (blast dest: bind_frame_Inr)
  from dropDuplicates_keys [OF assms(1) d(2)] project_key_values [OF d(1) assms(3)]
    project_length [OF d(1)]
  show ?thesis by simp
qed

lemma next_song_rows:
  "next_song df = Inr ev \<Longrightarrow> set (rows ev) \<subseteq> set (rows df) \<and> length (rows ev) \<le> length (rows df)"
  by (auto simp: next_song_def filter_rows_def split: sum.splits)

lemma join_condition_raises: "join_condition d s \<noteq> Inr c"
  by (auto simp: join_condition_def getattr_def col_and_def column_bool_def)

section \<open>The join condition\<close>

text \<open>
  C1. The claim: a songplay row is emitted exactly for the pairs of an event and a
  catalog row that agree on title, artist name and duration. The script does not get
  that far: evaluating its join condition raises ValueError, because the chained
  comparison asks for the truth value of a Column. So on the catalog of one song and
  one matching NextSong event the run ends in ValueError after the users and the time
  table, and no songplays table is written, where the condition of the specification
  gives one row.
\<close>

theorem join_condition_raises_on_match:
  "snd (process_log_data example_engine ''in'' ''out''
          (example_world [example_event ''NextSong'' ''free'' 200 1541440000000]))
     = Some ValueError \<and>
   parquet_files (fst (process_log_data example_engine ''in'' ''out''
          (example_world [example_event ''NextSong'' ''free'' 200 1541440000000])))
     ''out/songplays.parquet'' = None \<and>
   map_option (\<lambda>d. length (rows (table d)))
     (parquet_files (fst (log_data_with three_way_and example_engine ''in'' ''out''
          (example_world [example_event ''NextSong'' ''free'' 200 1541440000000])))
        ''out/songplays.parquet'') = Some 1"
  by code_simp

section \<open>Columns of the dimension tables\<close>

text \<open>
  C8, as the script has it. The artists table and the users table keep the names of the
  source fields: \<^verbatim>\<open>artist_id, artist_name, artist_location, artist_latitude,
  artist_longitude\<close> and \<^verbatim>\<open>userId, firstName, lastName, gender, level\<close>; the script
  renames nothing there.
\<close>

theorem dimension_columns:
  "(artists_table e df = Inr t \<longrightarrow>
      columns t = [''artist_id'', ''artist_name'', ''artist_location'',
                   ''artist_latitude'', ''artist_longitude'']) \<and>
   (users_table e ev = Inr u \<longrightarrow>
      columns u = [''userId'', ''firstName'', ''lastName'', ''gender'', ''level''])"
proof (intro conjI impI)
  assume "artists_table e df = Inr t"
  then obtain d where "project e [''artist_id'', ''artist_name'', ''artist_location'',
      ''artist_latitude'', ''artist_longitude''] df = Inr d" "dropDuplicates e ''artist_id'' d = Inr t"
    unfolding artists_table_def by (blast dest: bind_frame_Inr)
  then show "columns t = [''artist_id'', ''artist_name'', ''artist_location'',
                   ''artist_latitude'', ''artist_longitude'']"
    by (simp add: project_def select_columns dropDuplicates_columns)
next
  assume "users_table e ev = Inr u"
  then obtain d where
      "project e [''userId'', ''firstName'', ''lastName'', ''gender'', ''level''] ev = Inr d"
      "dropDuplicates e ''userId'' d = Inr u"
    unfolding users_table_def by (blast dest: bind_frame_Inr)
  then show "columns u = [''userId'', ''firstName'', ''lastName'', ''gender'', ''level'']"
    by (simp add: project_def select_columns dropDuplicates_columns)
qed

theorem dimension_columns_witness:
  "(\<exists>t. artists_table example_engine example_catalog = Inr t \<and>
      columns t = [''artist_id'', ''artist_name'', ''artist_location'',
                   ''artist_latitude'', ''artist_longitude'']) \<and>
   (\<exists>u. users_table example_engine
          (example_events [example_event ''NextSong'' ''free'' 200 1541440000000]) = Inr u \<and>
      columns u = [''userId'', ''firstName'', ''lastName'', ''gender'', ''level''])"
proof -
  let ?ev = "example_events [example_event ''NextSong'' ''free'' 200 1541440000000]"
  have "\<not> isl (artists_table example_engine example_catalog)" by code_simp
  then have a: "artists_table example_engine example_catalog =
                  Inr (projr (artists_table example_engine example_catalog))" by simp
  have "\<not> isl (users_table example_engine ?ev)" by code_simp
  then have u: "users_table example_engine ?ev = Inr (projr (users_table example_engine ?ev))"
    by simp
  have 1: "\<exists>t. artists_table example_engine example_catalog = Inr t \<and>
      columns t = [''artist_id'', ''artist_name'', ''artist_location'',
                   ''artist_latitude'', ''artist_longitude'']"
    by (rule exI, rule conjI, rule a, rule dimension_columns [THEN conjunct1, THEN mp, OF a])
  have 2: "\<exists>u. users_table example_engine ?ev = Inr u \<and>
      columns u = [''userId'', ''firstName'', ''lastName'', ''gender'', ''level'']"
    by (rule exI, rule conjI, rule u, rule dimension_columns [THEN conjunct2, THEN mp, OF u])
  from 1 2 show ?thesis by (rule conjI)
qed

text \<open>
  C8, as the claim has it, fails on the example: the columns written are not
  \<^verbatim>\<open>artist_id, name, location, latitude, longitude\<close> nor
  \<^verbatim>\<open>user_id, first_name, last_name, gender, level\<close>.
\<close>

theorem dimension_columns_not_renamed:
  "map_sum id columns (artists_table example_engine example_catalog) \<noteq>
     Inr [''artist_id'', ''name'', ''location'', ''latitude'', ''longitude''] \<and>
   map_sum id columns (users_table example_engine
        (example_events [example_event ''NextSong'' ''free'' 200 1541440000000])) \<noteq>
     Inr [''user_id'', ''first_name'', ''last_name'', ''gender'', ''level'']"
  by code_simp

section \<open>The dimension tables\<close>

text \<open>
  C3. Whichever row of a group of duplicates the engine keeps: the songs table has no
  two rows with the same \<^verbatim>\<open>song_id\<close>, the artists table none with the same
  \<^verbatim>\<open>artist_id\<close>, the users table none with the same \<^verbatim>\<open>userId\<close>; none has more rows
  than the table it is extracted from (the catalog, the event log), and every key in
  it is the key of a row of that table.
\<close>

theorem dimension_tables_deduplicated:
  assumes "\<forall>g. g \<noteq> [] \<longrightarrow> pick e g \<in> set g"
  shows "(songs_table e df = Inr t \<longrightarrow>
            distinct (key_values ''song_id'' t) \<and> length (rows t) \<le> length (rows df) \<and>
            set (key_values ''song_id'' t) \<subseteq> set (key_values ''song_id'' df)) \<and>
         (artists_table e df = Inr a \<longrightarrow>
            distinct (key_values ''artist_id'' a) \<and> length (rows a) \<le> length (rows df) \<and>
            set (key_values ''artist_id'' a) \<subseteq> set (key_values ''artist_id'' df)) \<and>
         (next_song events = Inr ev \<and> users_table e ev = Inr u \<longrightarrow>
            distinct (key_values ''userId'' u) \<and> length (rows u) \<le> length (rows events) \<and>
            set (key_values ''userId'' u) \<subseteq> set (key_values ''userId'' events))"
proof -
  have 1: "distinct (key_values ''song_id'' t) \<and> length (rows t) \<le> length (rows df) \<and>
            set (key_values ''song_id'' t) \<subseteq> set (key_values ''song_id'' df)"
    if h: "songs_table e df = Inr t"
    by (rule extract_keys [OF assms h [unfolded songs_table_def]]) simp
  have 2: "distinct (key_values ''artist_id'' a) \<and> length (rows a) \<le> length (rows df) \<and>
            set (key_values ''artist_id'' a) \<subseteq> set (key_values ''artist_id'' df)"
    if h: "artists_table e df = Inr a"
    by (rule extract_keys [OF assms h [unfolded artists_table_def]]) simp
  have 3: "distinct (key_values ''userId'' u) \<and> length (rows u) \<le> length (rows events) \<and>
            set (key_values ''userId'' u) \<subseteq> set (key_values ''userId'' events)"
    if h1: "next_song events = Inr ev" and h2: "users_table e ev = Inr u"
  proof -
    have "distinct (key_values ''userId'' u) \<and> length (rows u) \<le> length (rows ev) \<and>
            set (key_values ''userId'' u) \<subseteq> set (key_values ''userId'' ev)"
      by (rule extract_keys [OF assms h2 [unfolded users_table_def]]) simp
    moreover from h1 have "set (rows ev) \<subseteq> set (rows events) \<and> length (rows ev) \<le> length (rows events)"
      by (rule next_song_rows)
    moreover have "set (key_values ''userId'' ev) \<subseteq> set (key_values ''userId'' events)"
      if "set (rows ev) \<subseteq> set (rows events)"
      using that unfolding key_values_def set_map by (rule image_mono)
    ultimately show ?thesis
      by (meson order_trans)
  qed
  from 1 2 3 show ?thesis by blast
qed

theorem dimension_tables_deduplicated_witness:
  "(\<exists>t. songs_table example_engine example_catalog = Inr t \<and>
        distinct (key_values ''song_id'' t) \<and>
        length (rows t) \<le> length (rows example_catalog) \<and>
        set (key_values ''song_id'' t) \<subseteq> set (key_values ''song_id'' example_catalog)) \<and>
   (\<exists>a. artists_table example_engine example_catalog = Inr a \<and>
        distinct (key_values ''artist_id'' a) \<and>
        length (rows a) \<le> length (rows example_catalog) \<and>
        set (key_values ''artist_id'' a) \<subseteq> set (key_values ''artist_id'' example_catalog)) \<and>
   (\<exists>ev u. next_song (example_events [example_event ''NextSong'' ''free'' 200 1541440000000,
                                       example_event ''NextSong'' ''paid'' 200 1541440001000,
                                       example_event ''Home'' ''paid'' 0 1541440002000]) = Inr ev \<and>
        users_table example_engine ev = Inr u \<and>
        distinct (key_values ''userId'' u) \<and>
        length (rows u) \<le> length (rows (example_events
                                      [example_event ''NextSong'' ''free'' 200 1541440000000,
                                       example_event ''NextSong'' ''paid'' 200 1541440001000,
                                       example_event ''Home'' ''paid'' 0 1541440002000])) \<and>
        set (key_values ''userId'' u) \<subseteq> set (key_values ''userId'' (example_events
                                      [example_event ''NextSong'' ''free'' 200 1541440000000,
                                       example_event ''NextSong'' ''paid'' 200 1541440001000,
                                       example_event ''Home'' ''paid'' 0 1541440002000])))"
proof -
  let ?log = "example_events [example_event ''NextSong'' ''free'' 200 1541440000000,
                              example_event ''NextSong'' ''paid'' 200 1541440001000,
                              example_event ''Home'' ''paid'' 0 1541440002000]"
  have p: "\<forall>g. g \<noteq> [] \<longrightarrow> pick example_engine g \<in> set g"
    by (simp add: example_engine_def)
  have "\<not> isl (songs_table example_engine example_catalog)" by code_simp
  then have s: "songs_table example_engine example_catalog =
                  Inr (projr (songs_table example_engine example_catalog))" by simp
  have "\<not> isl (artists_table example_engine example_catalog)" by code_simp
  then have a: "artists_table example_engine example_catalog =
                  Inr (projr (artists_table example_engine example_catalog))" by simp
  have "\<not> isl (next_song ?log)" by code_simp
  then have n: "next_song ?log = Inr (projr (next_song ?log))" by simp
  have "\<not> isl (users_table example_engine (projr (next_song ?log)))" by code_simp
  then have u: "users_table example_engine (projr (next_song ?log)) =
                  Inr (projr (users_table example_engine (projr (next_song ?log))))" by simp
  note T = dimension_tables_deduplicated [OF p]
  from T [THEN conjunct1, THEN mp, OF s] s
  have 1: "\<exists>t. songs_table example_engine example_catalog = Inr t \<and>
        distinct (key_values ''song_id'' t) \<and>
        length (rows t) \<le> length (rows example_catalog) \<and>
        set (key_values ''song_id'' t) \<subseteq> set (key_values ''song_id'' example_catalog)"
    by blast
  from T [THEN conjunct2, THEN conjunct1, THEN mp, OF a] a
  have 2: "\<exists>a. artists_table example_engine example_catalog = Inr a \<and>
        distinct (key_values ''artist_id'' a) \<and>
        length (rows a) \<le> length (rows example_catalog) \<and>
        set (key_values ''artist_id'' a) \<subseteq> set (key_values ''artist_id'' example_catalog)"
    by blast
  from T [THEN conjunct2, THEN conjunct2, THEN mp, OF conjI [OF n u]] n u
  have 3: "\<exists>ev u. next_song ?log = Inr ev \<and> users_table example_engine ev = Inr u \<and>
        distinct (key_values ''userId'' u) \<and> length (rows u) \<le> length (rows ?log) \<and>
        set (key_values ''userId'' u) \<subseteq> set (key_values ''userId'' ?log)"
    by blast
  from 1 2 3 show ?thesis by (intro conjI)
qed

section \<open>Row identifiers\<close>

lemma row_id_of_nat: "row_id c k = word_of_nat ((k div c) * 2 ^ 33 + k mod c)"
  by (simp add: row_id_def push_bit_eq_mult)

lemma row_id_inj:
  assumes "k div c < 2 ^ 31" "k mod c < 2 ^ 33" "k' div c < 2 ^ 31" "k' mod c < 2 ^ 33"
    and "row_id c k = row_id c k'"
  shows "k = k'"
proof -
  let ?n = "(k div c) * 2 ^ 33 + k mod c" and ?n' = "(k' div c) * 2 ^ 33 + k' mod c"
  have b: "?n < 2 ^ 64" "?n' < 2 ^ 64" using assms(1-4) by simp_all
  have "(word_of_nat ?n :: 64 word) = word_of_nat ?n'"
    using assms(5) by (simp only: row_id_of_nat)
  then have "?n mod 2 ^ 64 = ?n' mod 2 ^ 64"
    unfolding word_of_nat_eq_iff take_bit_eq_mod by simp
  with b have e: "?n = ?n'" by simp
  from e have "?n div 2 ^ 33 = ?n' div 2 ^ 33" by simp
  with assms(2,4) have d: "k div c = k' div c" by simp
  from e d have m: "k mod c = k' mod c" by simp
  from d m show ?thesis by (metis div_mult_mod_eq)
qed

lemma select_row_songplay_id:
  "select_row songplays_items rid r = Inr y \<Longrightarrow>
     cell y ''songplay_id'' = Inr (IntV (sint rid))"
  by (auto simp: select_row_def songplays_items_def cell_def split: sum.splits)

lemma songplays_ids:
  assumes "songplays_table e joined = Inr t"
  shows "key_values ''songplay_id'' t =
           map (\<lambda>k. Inr (IntV (sint (row_id (rows_per_partition e) k)))) [0..<length (rows joined)]"
proof -
  from assms have "map_result (\<lambda>(k, r). select_row songplays_items
        (row_id (rows_per_partition e) k) r) (enumerate 0 (rows joined)) = Inr (rows t)"
    by (auto simp: songplays_table_def select_def split: if_splits sum.splits)
  then have "list_all2 (\<lambda>x y. (case x of (k, r) \<Rightarrow> select_row songplays_items
        (row_id (rows_per_partition e) k) r) = Inr y) (enumerate 0 (rows joined)) (rows t)"
    by (rule map_result_Inr)
  then have "list_all2 (\<lambda>x y. cell y ''songplay_id'' =
        Inr (IntV (sint (row_id (rows_per_partition e) (fst x))))) (enumerate 0 (rows joined)) (rows t)"
    by (rule list_all2_mono) (auto dest: select_row_songplay_id)
  then have "map (\<lambda>y. cell y ''songplay_id'') (rows t) =
      map (\<lambda>x. Inr (IntV (sint (row_id (rows_per_partition e) (fst x))))) (enumerate 0 (rows joined))"
    by (induction rule: list_all2_induct) auto
  also have "\<dots> = map (\<lambda>k. Inr (IntV (sint (row_id (rows_per_partition e) k))))
                      (map fst (enumerate 0 (rows joined)))"
    by (simp only: map_map comp_def)
  finally show ?thesis by (simp add: key_values_def)
qed

section \<open>Surrogate keys\<close>

text \<open>
  C5. The \<^verbatim>\<open>songplay_id\<close> values that the select of the songplays table gives the rows
  of a joined table are pairwise distinct, one for each row, within what Spark
  documents for \<^verbatim>\<open>monotonically_increasing_id\<close>: at most \<open>2 ^ 33\<close> rows in a partition
  and at most \<open>2 ^ 31\<close> partitions. Nothing is said about their order.
\<close>

theorem songplay_ids_distinct:
  assumes "songplays_table e joined = Inr t"
    and "(rows_per_partition e = 0 \<and> length (rows joined) \<le> 2 ^ 33) \<or>
         (0 < rows_per_partition e \<and> rows_per_partition e \<le> 2 ^ 33 \<and>
          length (rows joined) \<le> rows_per_partition e * 2 ^ 31)"
  shows "distinct (key_values ''songplay_id'' t) \<and>
         length (key_values ''songplay_id'' t) = length (rows joined)"
proof -
  let ?c = "rows_per_partition e" and ?n = "length (rows joined)"
  have bounds: "k div ?c < 2 ^ 31 \<and> k mod ?c < 2 ^ 33" if "k < ?n" for k
  proof (cases "?c = 0")
    case True
    with assms(2) that show ?thesis by simp
  next
    case False
    with assms(2) have c: "0 < ?c" "?c \<le> 2 ^ 33" "?n \<le> ?c * 2 ^ 31" by auto
    have "k mod ?c < ?c" using c(1) by simp
    moreover have "k < 2 ^ 31 * ?c" using that c(3) by (simp add: mult.commute)
    then have "k div ?c < 2 ^ 31" using c(1) by (simp add: less_mult_imp_div_less)
    ultimately show ?thesis using c(2) by simp
  qed
  have "inj_on (\<lambda>k. (Inr (IntV (sint (row_id ?c k))) :: error + val)) {0..<?n}"
  proof (rule inj_onI)
    fix k k' assume k: "k \<in> {0..<?n}" "k' \<in> {0..<?n}"
      and eq: "(Inr (IntV (sint (row_id ?c k))) :: error + val) = Inr (IntV (sint (row_id ?c k')))"
    from eq have "sint (row_id ?c k) = sint (row_id ?c k')" by simp
    then have "row_id ?c k = row_id ?c k'" by (rule signed_word_eqI)
    with bounds [of k] bounds [of k'] k show "k = k'"
      by (auto intro: row_id_inj)
  qed
  then show ?thesis
    unfolding songplays_ids [OF assms(1)] by (simp add: distinct_map)
qed

theorem songplay_ids_distinct_witness:
  "\<exists>t. songplays_table example_engine2 example_joined = Inr t \<and>
       distinct (key_values ''songplay_id'' t) \<and>
       length (key_values ''songplay_id'' t) = length (rows example_joined) \<and>
       key_values ''songplay_id'' t = [Inr (IntV 0), Inr (IntV 1), Inr (IntV 8589934592)]"
proof -
  have "\<not> isl (songplays_table example_engine2 example_joined)" by code_simp
  then have s: "songplays_table example_engine2 example_joined =
                  Inr (projr (songplays_table example_engine2 example_joined))" by simp
  have "length (rows example_joined) = 3" by code_simp
  moreover have "rows_per_partition example_engine2 = 2" by code_simp
  ultimately have b:
    "(rows_per_partition example_engine2 = 0 \<and> length (rows example_joined) \<le> 2 ^ 33) \<or>
     (0 < rows_per_partition example_engine2 \<and> rows_per_partition example_engine2 \<le> 2 ^ 33 \<and>
      length (rows example_joined) \<le> rows_per_partition example_engine2 * 2 ^ 31)"
    by simp
  have v: "key_values ''songplay_id'' (projr (songplays_table example_engine2 example_joined)) =
             [Inr (IntV 0), Inr (IntV 1), Inr (IntV 8589934592)]"
    by code_simp
  from songplay_ids_distinct [OF s b] s v show ?thesis by blast
qed

section \<open>Storage: basic facts\<close>

lemma path_join_inj: "path_join a b = path_join a c \<longleftrightarrow> b = c"
  by (auto simp: path_join_def)

lemma write_table_ok:
  assumes "write_table t parts path line w = (w', None)"
  shows "\<exists>df. t = Inr df \<and>
           w' = w\<lparr>parquet_files := (parquet_files w)(path \<mapsto> \<lparr>partitioned_by = parts, table = df\<rparr>),
                   stdout := stdout w @ [line]\<rparr>"
  using assms
  by (auto simp: write_table_def write_parquet_def print_def Let_def
           split: sum.splits if_splits)

lemma write_table_raised: "write_table t parts path line w = (w', Some x) \<Longrightarrow> w' = w"
  by (auto simp: write_table_def split: sum.splits)

lemma and_then_ok:
  "and_then r f = (w', None) \<Longrightarrow> \<exists>w1. r = (w1, None) \<and> f w1 = (w', None)"
  by (cases r) (auto simp: and_then_def split: option.splits)

lemma and_then_raised:
  "and_then r f = (w', Some x) \<Longrightarrow> r = (w', Some x) \<or> (\<exists>w1. r = (w1, None) \<and> f w1 = (w', Some x))"
  by (cases r) (auto simp: and_then_def split: option.splits)

lemma write_table_cases:
  assumes "write_table t parts path line w = (w', r)"
  shows "w' = w \<or> (\<exists>df. r = None \<and> t = Inr df \<and>
           w' = w\<lparr>parquet_files := (parquet_files w)(path \<mapsto> \<lparr>partitioned_by = parts, table = df\<rparr>),
                   stdout := stdout w @ [line]\<rparr>)"
proof (cases r)
  case None
  with assms show ?thesis by (blast dest: write_table_ok)
next
  case (Some x)
  with assms show ?thesis by (blast dest: write_table_raised)
qed

lemma write_table_json:
  "write_table t parts path line w = (w', r) \<Longrightarrow> json_files w' = json_files w"
  by (auto dest!: write_table_cases)

section \<open>Overwriting\<close>

text \<open>
  C9. Every write of the script is \<open>write_table\<close>, a write in overwrite mode followed
  by a line of output. For every two tables and every path: after the table \<open>t1\<close> has
  been written under the path and then the table \<open>t2\<close>, the data set under the path
  is \<open>t2\<close> with its partitioning, and no row of \<open>t1\<close> is left.
\<close>

theorem overwrite_replaces:
  assumes "write_table (Inr t1) parts1 path line1 w = (w1, None)"
    and "write_table (Inr t2) parts2 path line2 w1 = (w2, None)"
  shows "parquet_files w1 path = Some \<lparr>partitioned_by = parts1, table = t1\<rparr> \<and>
         parquet_files w2 path = Some \<lparr>partitioned_by = parts2, table = t2\<rparr>"
  using write_table_ok [OF assms(1)] write_table_ok [OF assms(2)] by auto

theorem overwrite_replaces_witness:
  "parquet_files (fst (write_table (Inr example_joined) [] ''out/users.parquet'' ''second''
      (fst (write_table (Inr example_catalog) [''year''] ''out/users.parquet'' ''first''
              (example_world []))))) ''out/users.parquet''
     = Some \<lparr>partitioned_by = [], table = example_joined\<rparr>"
proof -
  let ?w1 = "fst (write_table (Inr example_catalog) [''year''] ''out/users.parquet'' ''first''
                    (example_world []))"
  let ?w2 = "fst (write_table (Inr example_joined) [] ''out/users.parquet'' ''second'' ?w1)"
  have "snd (write_table (Inr example_catalog) [''year''] ''out/users.parquet'' ''first''
               (example_world [])) = None"
    by code_simp
  then have 1: "write_table (Inr example_catalog) [''year''] ''out/users.parquet'' ''first''
                  (example_world []) = (?w1, None)"
    by (metis prod.collapse)
  have "snd (write_table (Inr example_joined) [] ''out/users.parquet'' ''second'' ?w1) = None"
    by code_simp
  then have 2: "write_table (Inr example_joined) [] ''out/users.parquet'' ''second'' ?w1
                  = (?w2, None)"
    by (metis prod.collapse)
  from overwrite_replaces [OF 1 2] show ?thesis by (rule conjunct2)
qed

section \<open>Every step keeps the layout\<close>

lemma write_table_layout:
  assumes "partition_layout out w"
    and "write_table t parts (path_join out name) line w = (w', r)"
    and "(name, parts) \<in> set output_layout"
  shows "partition_layout out w'"
proof -
  from write_table_cases [OF assms(2)] show ?thesis
  proof
    assume "w' = w" with assms(1) show ?thesis by simp
  next
    assume "\<exists>df. r = None \<and> t = Inr df \<and>
           w' = w\<lparr>parquet_files := (parquet_files w)(path_join out name \<mapsto>
                      \<lparr>partitioned_by = parts, table = df\<rparr>),
                   stdout := stdout w @ [line]\<rparr>"
    then obtain df where w': "w' = w\<lparr>parquet_files := (parquet_files w)(path_join out name \<mapsto>
                      \<lparr>partitioned_by = parts, table = df\<rparr>), stdout := stdout w @ [line]\<rparr>"
      by blast
    from assms(1,3) show ?thesis
      unfolding w' partition_layout_def output_layout_def
      by (auto simp: path_join_inj)
  qed
qed

lemma and_then_layout:
  assumes "and_then r f = (w', x)" and "partition_layout out (fst r)"
    and "\<And>w1 w2 y. partition_layout out w1 \<Longrightarrow> f w1 = (w2, y) \<Longrightarrow> partition_layout out w2"
  shows "partition_layout out w'"
proof (cases r)
  case (Pair w1 y)
  show ?thesis
  proof (cases y)
    case None
    with Pair assms(1) have "f w1 = (w', x)" by (simp add: and_then_def)
    with assms(2,3) Pair show ?thesis by auto
  next
    case (Some z)
    with Pair assms(1) have "w' = w1" by (simp add: and_then_def)
    with assms(2) Pair show ?thesis by simp
  qed
qed

lemma print_layout: "partition_layout out (print line w) = partition_layout out w"
  by (simp add: partition_layout_def print_def)

lemma process_song_data_layout:
  assumes "partition_layout out w" and "process_song_data e i out w = (w', r)"
  shows "partition_layout out w'"
proof (cases "read_json w (song_data_path i)")
  case (Inl x)
  with assms show ?thesis by (simp add: process_song_data_def)
next
  case (Inr df)
  with assms(2) have a: "and_then
            (write_table (songs_table e df) [''year'', ''artist_id'']
               (path_join out ''songs.parquet'') ''------>songs.parquet is completed'' w)
            (write_table (artists_table e df) []
               (path_join out ''artists.parquet'') ''------>artists.parquet is completed'') = (w', r)"
    by (simp add: process_song_data_def)
  show ?thesis
  proof (rule and_then_layout [OF a])
    show "partition_layout out (fst (write_table (songs_table e df) [''year'', ''artist_id'']
               (path_join out ''songs.parquet'') ''------>songs.parquet is completed'' w))"
      by (rule write_table_layout [OF assms(1) prod.collapse [symmetric]])
         (simp add: output_layout_def)
  next
    fix w1 w2 y assume "partition_layout out w1"
      and "write_table (artists_table e df) [] (path_join out ''artists.parquet'')
             ''------>artists.parquet is completed'' w1 = (w2, y)"
    then show "partition_layout out w2"
      by (rule write_table_layout) (simp add: output_layout_def)
  qed
qed

lemma log_data_from_layout:
  assumes "partition_layout out w" and "log_data_from jc e i out df w = (w', r)"
  shows "partition_layout out w'"
proof (cases "add_datetime e df")
  case (Inl x)
  with assms show ?thesis by (simp add: log_data_from_def)
next
  case (Inr df2)
  let ?rest = "\<lambda>w1. case bind_frame (read_json w1 (song_data_path i))
                          (dropDuplicates e ''song_id'') of
                     Inl err \<Rightarrow> (w1, Some err)
                   | Inr song_df \<Rightarrow>
                       (case jc df2 song_df of
                          Inl err \<Rightarrow> (w1, Some err)
                        | Inr c \<Rightarrow>
                            write_table (bind_frame (join_inner df2 song_df c) (songplays_table e))
                              [''year'', ''month''] (path_join out ''songplays.parquet'')
                              ''------>songplays.parquet is completed'' w1)"
  from Inr assms(2) have a: "and_then
            (write_table (time_table e df2) [''year'', ''month'']
               (path_join out ''time.parquet'') ''------>time.parquet is completed'' w) ?rest = (w', r)"
    by (simp add: log_data_from_def)
  show ?thesis
  proof (rule and_then_layout [OF a])
    show "partition_layout out (fst (write_table (time_table e df2) [''year'', ''month'']
               (path_join out ''time.parquet'') ''------>time.parquet is completed'' w))"
      by (rule write_table_layout [OF assms(1) prod.collapse [symmetric]])
         (simp add: output_layout_def)
  next
    fix w1 w2 y assume l: "partition_layout out w1" and r: "?rest w1 = (w2, y)"
    show "partition_layout out w2"
    proof (cases "bind_frame (read_json w1 (song_data_path i)) (dropDuplicates e ''song_id'')")
      case (Inl x)
      with l r show ?thesis by simp
    next
      case song: (Inr song_df)
      show ?thesis
      proof (cases "jc df2 song_df")
        case (Inl x)
        with song l r show ?thesis by simp
      next
        case (Inr c)
        with song r have "write_table (bind_frame (join_inner df2 song_df c) (songplays_table e))
                              [''year'', ''month''] (path_join out ''songplays.parquet'')
                              ''------>songplays.parquet is completed'' w1 = (w2, y)"
          by simp
        with l show ?thesis
          by (rule write_table_layout) (simp add: output_layout_def)
      qed
    qed
  qed
qed

lemma log_data_upto_layout:
  assumes "partition_layout out w" and "log_data_upto e i out rest w = (w', r)"
    and "\<And>df w1 w2 y. partition_layout out w1 \<Longrightarrow> rest df w1 = (w2, y) \<Longrightarrow> partition_layout out w2"
  shows "partition_layout out w'"
proof -
  let ?w0 = "print (log_data_path i) w"
  have l0: "partition_layout out ?w0" using assms(1) by (simp add: print_layout)
  show ?thesis
  proof (cases "bind_frame (read_json ?w0 (log_data_path i)) next_song")
    case (Inl x)
    with assms(2) l0 show ?thesis by (simp add: log_data_upto_def Let_def)
  next
    case (Inr df)
    with assms(2) have a: "and_then
               (write_table (users_table e df) []
                  (path_join out ''users.parquet'') ''------>users.parquet is completed'' ?w0)
               (rest df) = (w', r)"
      by (simp add: log_data_upto_def Let_def)
    show ?thesis
    proof (rule and_then_layout [OF a])
      show "partition_layout out (fst (write_table (users_table e df) []
                  (path_join out ''users.parquet'') ''------>users.parquet is completed'' ?w0))"
        by (rule write_table_layout [OF l0 prod.collapse [symmetric]])
           (simp add: output_layout_def)
    qed (rule assms(3))
  qed
qed

lemma log_data_with_layout:
  assumes "partition_layout out w" and "log_data_with jc e i out w = (w', r)"
  shows "partition_layout out w'"
proof (rule log_data_upto_layout [OF assms(1) assms(2) [unfolded log_data_with_def]])
  fix df w1 w2 y
  assume l: "partition_layout out w1"
    and r: "(case add_timestamp df of Inl err \<Rightarrow> (w1, Some err)
             | Inr df1 \<Rightarrow> log_data_from jc e i out df1 w1) = (w2, y)"
  show "partition_layout out w2"
  proof (cases "add_timestamp df")
    case (Inl x)
    with l r show ?thesis by simp
  next
    case (Inr df1)
    with r have "log_data_from jc e i out df1 w1 = (w2, y)" by simp
    with l show ?thesis by (rule log_data_from_layout)
  qed
qed

section \<open>Runs that end without an exception\<close>

lemma read_json_written [simp]:
  "read_json (w\<lparr>parquet_files := p, stdout := s\<rparr>) path = read_json w path"
  "read_json (print line w) path = read_json w path"
  "read_json (w\<lparr>stdout := s\<rparr>) path = read_json w path"
  "read_json (w\<lparr>parquet_files := p\<rparr>) path = read_json w path"
  by (simp_all add: read_json_def print_def)

lemma process_song_data_ok:
  assumes "process_song_data e i out w = (w', None)"
  shows "\<exists>df t a. read_json w (song_data_path i) = Inr df \<and> songs_table e df = Inr t \<and>
           artists_table e df = Inr a \<and>
           w' = w\<lparr>parquet_files := (parquet_files w)
                    (path_join out ''songs.parquet'' \<mapsto>
                       \<lparr>partitioned_by = [''year'', ''artist_id''], table = t\<rparr>,
                     path_join out ''artists.parquet'' \<mapsto> \<lparr>partitioned_by = [], table = a\<rparr>),
                   stdout := stdout w @ [''------>songs.parquet is completed'',
                                         ''------>artists.parquet is completed'']\<rparr>"
proof (cases "read_json w (song_data_path i)")
  case (Inl x)
  with assms show ?thesis by (simp add: process_song_data_def)
next
  case (Inr df)
  with assms have "and_then
            (write_table (songs_table e df) [''year'', ''artist_id'']
               (path_join out ''songs.parquet'') ''------>songs.parquet is completed'' w)
            (write_table (artists_table e df) []
               (path_join out ''artists.parquet'') ''------>artists.parquet is completed'') = (w', None)"
    by (simp add: process_song_data_def)
  then obtain w1 where
    1: "write_table (songs_table e df) [''year'', ''artist_id'']
               (path_join out ''songs.parquet'') ''------>songs.parquet is completed'' w = (w1, None)"
    and 2: "write_table (artists_table e df) []
               (path_join out ''artists.parquet'') ''------>artists.parquet is completed'' w1 = (w', None)"
    by (blast dest: and_then_ok)
  from write_table_ok [OF 1] obtain t where t: "songs_table e df = Inr t"
    "w1 = w\<lparr>parquet_files := (parquet_files w)(path_join out ''songs.parquet'' \<mapsto>
              \<lparr>partitioned_by = [''year'', ''artist_id''], table = t\<rparr>),
            stdout := stdout w @ [''------>songs.parquet is completed'']\<rparr>"
    by blast
  from write_table_ok [OF 2] obtain a where a: "artists_table e df = Inr a"
    "w' = w1\<lparr>parquet_files := (parquet_files w1)(path_join out ''artists.parquet'' \<mapsto>
              \<lparr>partitioned_by = [], table = a\<rparr>),
            stdout := stdout w1 @ [''------>artists.parquet is completed'']\<rparr>"
    by blast
  from Inr t a show ?thesis by simp
qed

lemma process_song_data_json: "json_files (fst (process_song_data e i out w)) = json_files w"
proof (cases "read_json w (song_data_path i)")
  case (Inl x)
  then show ?thesis by (simp add: process_song_data_def)
next
  case (Inr df)
  obtain w1 r1 where 1: "write_table (songs_table e df) [''year'', ''artist_id'']
               (path_join out ''songs.parquet'') ''------>songs.parquet is completed'' w = (w1, r1)"
    by (metis prod.collapse)
  obtain w2 r2 where 2: "write_table (artists_table e df) []
               (path_join out ''artists.parquet'') ''------>artists.parquet is completed'' w1 = (w2, r2)"
    by (metis prod.collapse)
  from write_table_json [OF 1] write_table_json [OF 2] Inr 1 2 show ?thesis
    by (cases r1) (simp_all add: process_song_data_def and_then_def)
qed

section \<open>The run on the event log\<close>

lemma time_table_columns:
  "time_table e df = Inr tt \<Longrightarrow>
     columns tt = [''start_time'', ''hour'', ''day'', ''week'', ''month'', ''year'']"
proof -
  assume "time_table e df = Inr tt"
  then obtain d where d: "select e time_items df = Inr d" "dropDuplicates e ''start_time'' d = Inr tt"
    unfolding time_table_def by (blast dest: bind_frame_Inr)
  from select_columns [OF d(1)] dropDuplicates_columns [OF d(2)] show ?thesis
    by (simp add: time_items_def)
qed

lemma write_table_unpartitioned:
  "write_table (Inr t) [] path line w =
     (w\<lparr>parquet_files := (parquet_files w)(path \<mapsto> \<lparr>partitioned_by = [], table = t\<rparr>),
        stdout := stdout w @ [line]\<rparr>, None)"
  by (simp add: write_table_def write_parquet_def print_def)

lemma write_table_time:
  "time_table e df = Inr tt \<Longrightarrow>
   write_table (Inr tt) [''year'', ''month''] path line w =
     (w\<lparr>parquet_files := (parquet_files w)
           (path \<mapsto> \<lparr>partitioned_by = [''year'', ''month''], table = tt\<rparr>),
        stdout := stdout w @ [line]\<rparr>, None)"
  by (simp add: write_table_def write_parquet_def print_def time_table_columns)

lemma write_table_Inl: "write_table (Inl x) parts path line w = (w, Some x)"
  by (simp add: write_table_def)

lemma join_condition_Inl: "join_condition d s = Inl (projl (join_condition d s))"
  by (cases "join_condition d s") (simp_all add: join_condition_raises)

lemma log_data_from_script:
  "log_data_from join_condition e i out df1 w =
     (case add_datetime e df1 of
        Inl x \<Rightarrow> (w, Some x)
      | Inr df2 \<Rightarrow>
          (case time_table e df2 of
             Inl x \<Rightarrow> (w, Some x)
           | Inr tt \<Rightarrow>
               (w\<lparr>parquet_files := (parquet_files w)
                     (path_join out ''time.parquet'' \<mapsto>
                        \<lparr>partitioned_by = [''year'', ''month''], table = tt\<rparr>),
                  stdout := stdout w @ [''------>time.parquet is completed'']\<rparr>,
                Some (case bind_frame (read_json w (song_data_path i))
                             (dropDuplicates e ''song_id'') of
                        Inl x \<Rightarrow> x
                      | Inr song_df \<Rightarrow> projl (join_condition df2 song_df)))))"
proof (cases "add_datetime e df1")
  case (Inl x)
  then show ?thesis by (simp add: log_data_from_def)
next
  case df2: (Inr df2)
  show ?thesis
  proof (cases "time_table e df2")
    case (Inl x)
    with df2 show ?thesis by (simp add: log_data_from_def write_table_Inl and_then_def)
  next
    case (Inr tt)
    show ?thesis
    proof (cases "bind_frame (read_json w (song_data_path i)) (dropDuplicates e ''song_id'')")
      case (Inl x)
      with df2 Inr show ?thesis
        by (simp add: log_data_from_def write_table_time [OF Inr] and_then_def)
    next
      case s: (Inr song_df)
      obtain x where x: "join_condition df2 song_df = Inl x"
        by (cases "join_condition df2 song_df") (simp_all add: join_condition_raises)
      with df2 Inr s show ?thesis
        by (simp add: log_data_from_def write_table_time [OF Inr] and_then_def)
    qed
  qed
qed

lemma process_log_data_script:
  "process_log_data e i out w =
     (case bind_frame (read_json w (log_data_path i)) next_song of
        Inl x \<Rightarrow> (w\<lparr>stdout := stdout w @ [log_data_path i]\<rparr>, Some x)
      | Inr ev \<Rightarrow>
          (case users_table e ev of
             Inl x \<Rightarrow> (w\<lparr>stdout := stdout w @ [log_data_path i]\<rparr>, Some x)
           | Inr u \<Rightarrow>
               (case bind_frame (bind_frame (add_timestamp ev) (add_datetime e))
                       (\<lambda>df2. case time_table e df2 of Inl x \<Rightarrow> Inl x | Inr tt \<Rightarrow> Inr df2) of
                  Inl x \<Rightarrow>
                    (w\<lparr>parquet_files := (parquet_files w)
                          (path_join out ''users.parquet'' \<mapsto> \<lparr>partitioned_by = [], table = u\<rparr>),
                       stdout := stdout w @ [log_data_path i,
                                             ''------>users.parquet is completed'']\<rparr>, Some x)
                | Inr df2 \<Rightarrow>
                    (w\<lparr>parquet_files := (parquet_files w)
                          (path_join out ''users.parquet'' \<mapsto> \<lparr>partitioned_by = [], table = u\<rparr>,
                           path_join out ''time.parquet'' \<mapsto>
                             \<lparr>partitioned_by = [''year'', ''month''],
                              table = projr (time_table e df2)\<rparr>),
                       stdout := stdout w @ [log_data_path i,
                                             ''------>users.parquet is completed'',
                                             ''------>time.parquet is completed'']\<rparr>,
                     Some (case bind_frame (read_json w (song_data_path i))
                                  (dropDuplicates e ''song_id'') of
                             Inl x \<Rightarrow> x
                           | Inr song_df \<Rightarrow> projl (join_condition df2 song_df))))))"
proof (cases "bind_frame (read_json w (log_data_path i)) next_song")
  case (Inl x)
  then show ?thesis
    by (simp add: process_log_data_def log_data_with_def log_data_upto_def Let_def print_def)
next
  case ev: (Inr ev)
  show ?thesis
  proof (cases "users_table e ev")
    case (Inl x)
    with ev show ?thesis
      by (simp add: process_log_data_def log_data_with_def log_data_upto_def Let_def print_def
            write_table_Inl and_then_def)
  next
    case u: (Inr u)
    show ?thesis
    proof (cases "add_timestamp ev")
      case (Inl x)
      with ev u show ?thesis
        by (simp add: process_log_data_def log_data_with_def log_data_upto_def Let_def print_def
              write_table_unpartitioned and_then_def bind_frame_def)
    next
      case df1: (Inr df1)
      show ?thesis
      proof (cases "add_datetime e df1")
        case (Inl x)
        with ev u df1 show ?thesis
          by (simp add: process_log_data_def log_data_with_def log_data_upto_def Let_def print_def
                write_table_unpartitioned and_then_def bind_frame_def log_data_from_script)
      next
        case df2: (Inr df2)
        show ?thesis
        proof (cases "time_table e df2")
          case (Inl x)
          with ev u df1 df2 show ?thesis
            by (simp add: process_log_data_def log_data_with_def log_data_upto_def Let_def print_def
                  write_table_unpartitioned and_then_def bind_frame_def log_data_from_script)
        next
          case (Inr tt)
          with ev u df1 df2 show ?thesis
            by (simp add: process_log_data_def log_data_with_def log_data_upto_def Let_def print_def
                  write_table_unpartitioned and_then_def bind_frame_def log_data_from_script)
        qed
      qed
    qed
  qed
qed

lemma process_log_data_raises: "\<exists>err. snd (process_log_data e i out w) = Some err"
  by (simp add: process_log_data_script split: sum.splits)

lemma process_log_data_songplays:
  "parquet_files (fst (process_log_data e i out w)) (path_join out ''songplays.parquet'')
     = parquet_files w (path_join out ''songplays.parquet'')"
  by (simp add: process_log_data_script path_join_inj split: sum.splits)

lemma process_log_data_time_written:
  assumes "stdout (fst (process_log_data e i out w))
             = stdout w @ [log_data_path i, ''------>users.parquet is completed'',
                           ''------>time.parquet is completed'']"
  shows "\<exists>ev u df1 df2 tt err.
           bind_frame (read_json w (log_data_path i)) next_song = Inr ev \<and>
           users_table e ev = Inr u \<and> add_timestamp ev = Inr df1 \<and>
           add_datetime e df1 = Inr df2 \<and> time_table e df2 = Inr tt \<and>
           (case bind_frame (read_json w (song_data_path i)) (dropDuplicates e ''song_id'') of
              Inl x \<Rightarrow> err = x
            | Inr song_df \<Rightarrow> join_condition df2 song_df = Inl err) \<and>
           process_log_data e i out w =
             (w\<lparr>parquet_files := (parquet_files w)
                   (path_join out ''users.parquet'' \<mapsto> \<lparr>partitioned_by = [], table = u\<rparr>,
                    path_join out ''time.parquet'' \<mapsto>
                      \<lparr>partitioned_by = [''year'', ''month''], table = tt\<rparr>),
                stdout := stdout w @ [log_data_path i, ''------>users.parquet is completed'',
                                      ''------>time.parquet is completed'']\<rparr>, Some err)"
proof (cases "bind_frame (read_json w (log_data_path i)) next_song")
  case (Inl x)
  with assms show ?thesis by (simp add: process_log_data_script)
next
  case ev: (Inr ev)
  show ?thesis
  proof (cases "users_table e ev")
    case (Inl x)
    with assms ev show ?thesis by (simp add: process_log_data_script)
  next
    case u: (Inr u)
    show ?thesis
    proof (cases "add_timestamp ev")
      case (Inl x)
      with assms ev u show ?thesis by (simp add: process_log_data_script bind_frame_def)
    next
      case df1: (Inr df1)
      show ?thesis
      proof (cases "add_datetime e df1")
        case (Inl x)
        with assms ev u df1 show ?thesis by (simp add: process_log_data_script bind_frame_def)
      next
        case df2: (Inr df2)
        show ?thesis
        proof (cases "time_table e df2")
          case (Inl x)
          with assms ev u df1 df2 show ?thesis
            by (simp add: process_log_data_script bind_frame_def)
        next
          case tt: (Inr tt)
          have "case bind_frame (read_json w (song_data_path i)) (dropDuplicates e ''song_id'') of
              Inl x \<Rightarrow> (case bind_frame (read_json w (song_data_path i))
                                  (dropDuplicates e ''song_id'') of
                             Inl x \<Rightarrow> x
                           | Inr song_df \<Rightarrow> projl (join_condition df2 song_df)) = x
            | Inr song_df \<Rightarrow> join_condition df2 song_df = Inl (case bind_frame (read_json w (song_data_path i))
                                  (dropDuplicates e ''song_id'') of
                             Inl x \<Rightarrow> x
                           | Inr song_df \<Rightarrow> projl (join_condition df2 song_df))"
            by (simp add: join_condition_Inl [symmetric] split: sum.splits)
          moreover have "process_log_data e i out w =
             (w\<lparr>parquet_files := (parquet_files w)
                   (path_join out ''users.parquet'' \<mapsto> \<lparr>partitioned_by = [], table = u\<rparr>,
                    path_join out ''time.parquet'' \<mapsto>
                      \<lparr>partitioned_by = [''year'', ''month''], table = tt\<rparr>),
                stdout := stdout w @ [log_data_path i, ''------>users.parquet is completed'',
                                      ''------>time.parquet is completed'']\<rparr>,
              Some (case bind_frame (read_json w (song_data_path i))
                                  (dropDuplicates e ''song_id'') of
                             Inl x \<Rightarrow> x
                           | Inr song_df \<Rightarrow> projl (join_condition df2 song_df)))"
            using ev u df1 df2 tt by (simp add: process_log_data_script bind_frame_def)
          ultimately show ?thesis using ev u df1 df2 tt by blast
        qed
      qed
    qed
  qed
qed

lemma process_log_data_effect:
  "\<exists>added lines err. added (path_join out ''songplays.parquet'') = None \<and>
     (\<forall>v. json_files v = json_files (w :: world) \<longrightarrow>
        process_log_data e i out v =
          (v\<lparr>parquet_files := parquet_files v ++ added, stdout := stdout v @ lines\<rparr>, Some err))"
proof -
  have r: "read_json v = read_json w" if "json_files v = json_files w" for v :: world
    using that by (simp add: read_json_def fun_eq_iff)
  show ?thesis
  proof -
    have a: "\<exists>added lines err. added (path_join out ''songplays.parquet'') = None \<and>
       (\<forall>v. read_json v = read_json w \<longrightarrow>
        process_log_data e i out v =
          (v\<lparr>parquet_files := parquet_files v ++ added, stdout := stdout v @ lines\<rparr>, Some err))"
    proof (cases "bind_frame (read_json w (log_data_path i)) next_song")
      case (Inl x)
      then have "\<forall>v. read_json v = read_json w \<longrightarrow>
        process_log_data e i out v =
          (v\<lparr>parquet_files := parquet_files v ++ Map.empty,
             stdout := stdout v @ [log_data_path i]\<rparr>, Some x)"
        by (simp add: process_log_data_script)
      then show ?thesis
        by (intro exI [of _ Map.empty] exI [of _ "[log_data_path i]"] exI [of _ x] conjI)
           simp_all
    next
      case ev: (Inr ev)
      show ?thesis
      proof (cases "users_table e ev")
        case (Inl x)
        with ev have "\<forall>v. read_json v = read_json w \<longrightarrow>
          process_log_data e i out v =
            (v\<lparr>parquet_files := parquet_files v ++ Map.empty,
               stdout := stdout v @ [log_data_path i]\<rparr>, Some x)"
          by (simp add: process_log_data_script)
        then show ?thesis
        by (intro exI [of _ Map.empty] exI [of _ "[log_data_path i]"] exI [of _ x] conjI)
           simp_all
      next
        case u: (Inr u)
        show ?thesis
        proof (cases "bind_frame (bind_frame (add_timestamp ev) (add_datetime e))
                       (\<lambda>df2. case time_table e df2 of Inl x \<Rightarrow> Inl x | Inr tt \<Rightarrow> Inr df2)")
          case (Inl x)
          with ev u have "\<forall>v. read_json v = read_json w \<longrightarrow>
            process_log_data e i out v =
              (v\<lparr>parquet_files := parquet_files v ++
                    [path_join out ''users.parquet'' \<mapsto> \<lparr>partitioned_by = [], table = u\<rparr>],
                 stdout := stdout v @ [log_data_path i,
                                       ''------>users.parquet is completed'']\<rparr>, Some x)"
            by (simp add: process_log_data_script)
          then show ?thesis
            by (intro exI [of _ "[path_join out ''users.parquet'' \<mapsto>
                                   \<lparr>partitioned_by = [], table = u\<rparr>]"]
                  exI [of _ "[log_data_path i, ''------>users.parquet is completed'']"]
                  exI [of _ x] conjI)
               (simp_all add: path_join_inj)
        next
          case (Inr df2)
          with ev u have "\<forall>v. read_json v = read_json w \<longrightarrow>
            process_log_data e i out v =
              (v\<lparr>parquet_files := parquet_files v ++
                    [path_join out ''users.parquet'' \<mapsto> \<lparr>partitioned_by = [], table = u\<rparr>,
                     path_join out ''time.parquet'' \<mapsto>
                       \<lparr>partitioned_by = [''year'', ''month''],
                        table = projr (time_table e df2)\<rparr>],
                 stdout := stdout v @ [log_data_path i,
                                       ''------>users.parquet is completed'',
                                       ''------>time.parquet is completed'']\<rparr>,
               Some (case bind_frame (read_json w (song_data_path i))
                                  (dropDuplicates e ''song_id'') of
                             Inl x \<Rightarrow> x
                           | Inr song_df \<Rightarrow> projl (join_condition df2 song_df)))"
            by (simp add: process_log_data_script)
          then show ?thesis
            by (intro exI [of _ "[path_join out ''users.parquet'' \<mapsto>
                                   \<lparr>partitioned_by = [], table = u\<rparr>,
                                  path_join out ''time.parquet'' \<mapsto>
                       \<lparr>partitioned_by = [''year'', ''month''],
                        table = projr (time_table e df2)\<rparr>]"]
                  exI [of _ "[log_data_path i, ''------>users.parquet is completed'',
                              ''------>time.parquet is completed'']"]
                  exI [of _ "case bind_frame (read_json w (song_data_path i))
                                  (dropDuplicates e ''song_id'') of
                             Inl x \<Rightarrow> x
                           | Inr song_df \<Rightarrow> projl (join_condition df2 song_df)"] conjI)
               (simp_all add: path_join_inj)
        qed
      qed
    qed
    with r show ?thesis by metis
  qed
qed

section \<open>Partitioning of the output\<close>

text \<open>
  C7. What the script writes, it writes partitioned as the claim has it, and it writes
  no songplays. A run of \<^verbatim>\<open>process_song_data\<close> that ends without an exception leaves the
  songs partitioned by (year, artist_id) and the artists unpartitioned. A run of
  \<^verbatim>\<open>process_log_data\<close> that has printed the line that follows the write of the time table
  has left the users unpartitioned and the time table partitioned by (year, month). No
  run of \<^verbatim>\<open>process_log_data\<close> changes what is under \<^verbatim>\<open>songplays.parquet\<close>: the write
  with \<^verbatim>\<open>partitionBy('year', 'month')\<close> that ends the function is never reached, because
  the join condition raises before it. And however a run ends, it leaves every data
  set under the five paths partitioned as in the layout, if they were so before.
\<close>

theorem written_output_partitioning:
  "(process_song_data e i out w = (w1, None) \<longrightarrow>
      map_option partitioned_by (parquet_files w1 (path_join out ''songs.parquet''))
        = Some [''year'', ''artist_id''] \<and>
      map_option partitioned_by (parquet_files w1 (path_join out ''artists.parquet''))
        = Some []) \<and>
   (stdout (fst (process_log_data e i out w))
      = stdout w @ [log_data_path i, ''------>users.parquet is completed'',
                    ''------>time.parquet is completed''] \<longrightarrow>
      map_option partitioned_by
        (parquet_files (fst (process_log_data e i out w)) (path_join out ''users.parquet''))
        = Some [] \<and>
      map_option partitioned_by
        (parquet_files (fst (process_log_data e i out w)) (path_join out ''time.parquet''))
        = Some [''year'', ''month'']) \<and>
   parquet_files (fst (process_log_data e i out w)) (path_join out ''songplays.parquet'')
     = parquet_files w (path_join out ''songplays.parquet'') \<and>
   (partition_layout out w \<and> process_song_data e i out w = (w3, r3) \<longrightarrow>
      partition_layout out w3) \<and>
   (partition_layout out w \<and> process_log_data e i out w = (w4, r4) \<longrightarrow>
      partition_layout out w4)"
proof -
  have 1: "map_option partitioned_by (parquet_files w1 (path_join out ''songs.parquet''))
        = Some [''year'', ''artist_id''] \<and>
      map_option partitioned_by (parquet_files w1 (path_join out ''artists.parquet''))
        = Some []" if "process_song_data e i out w = (w1, None)"
    using process_song_data_ok [OF that] by (auto simp: path_join_inj)
  have 2: "map_option partitioned_by
        (parquet_files (fst (process_log_data e i out w)) (path_join out ''users.parquet''))
        = Some [] \<and>
      map_option partitioned_by
        (parquet_files (fst (process_log_data e i out w)) (path_join out ''time.parquet''))
        = Some [''year'', ''month'']"
    if "stdout (fst (process_log_data e i out w))
      = stdout w @ [log_data_path i, ''------>users.parquet is completed'',
                    ''------>time.parquet is completed'']"
    using process_log_data_time_written [OF that] by (auto simp: path_join_inj)
  have 3: "partition_layout out w3"
    if "partition_layout out w" "process_song_data e i out w = (w3, r3)"
    using that by (rule process_song_data_layout)
  have 4: "partition_layout out w4"
    if "partition_layout out w" "process_log_data e i out w = (w4, r4)"
    using that unfolding process_log_data_def by (rule log_data_with_layout)
  from 1 2 3 4 process_log_data_songplays [of e i out w] show ?thesis by blast
qed

theorem written_output_partitioning_witness:
  "map_option partitioned_by (parquet_files
      (fst (process_song_data example_engine ''in'' ''out''
         (example_world [example_event ''NextSong'' ''free'' 200 1541440000000])))
      (path_join ''out'' ''songs.parquet'')) = Some [''year'', ''artist_id''] \<and>
   map_option partitioned_by (parquet_files
      (fst (process_song_data example_engine ''in'' ''out''
         (example_world [example_event ''NextSong'' ''free'' 200 1541440000000])))
      (path_join ''out'' ''artists.parquet'')) = Some [] \<and>
   map_option partitioned_by (parquet_files
      (fst (process_log_data example_engine ''in'' ''out''
         (fst (process_song_data example_engine ''in'' ''out''
            (example_world [example_event ''NextSong'' ''free'' 200 1541440000000])))))
      (path_join ''out'' ''users.parquet'')) = Some [] \<and>
   map_option partitioned_by (parquet_files
      (fst (process_log_data example_engine ''in'' ''out''
         (fst (process_song_data example_engine ''in'' ''out''
            (example_world [example_event ''NextSong'' ''free'' 200 1541440000000])))))
      (path_join ''out'' ''time.parquet'')) = Some [''year'', ''month''] \<and>
   parquet_files
      (fst (process_log_data example_engine ''in'' ''out''
         (fst (process_song_data example_engine ''in'' ''out''
            (example_world [example_event ''NextSong'' ''free'' 200 1541440000000])))))
      (path_join ''out'' ''songplays.parquet'') = None \<and>
   partition_layout ''out''
      (fst (process_log_data example_engine ''in'' ''out''
         (fst (process_song_data example_engine ''in'' ''out''
            (example_world [example_event ''NextSong'' ''free'' 200 1541440000000])))))"
proof -
  let ?w = "example_world [example_event ''NextSong'' ''free'' 200 1541440000000]"
  let ?v = "fst (process_song_data example_engine ''in'' ''out'' ?w)"
  let ?x = "fst (process_log_data example_engine ''in'' ''out'' ?v)"
  have "snd (process_song_data example_engine ''in'' ''out'' ?w) = None" by code_simp
  then have s: "process_song_data example_engine ''in'' ''out'' ?w = (?v, None)"
    by (metis prod.collapse)
  have l: "stdout ?x = stdout ?v @ [log_data_path ''in'', ''------>users.parquet is completed'',
                                    ''------>time.parquet is completed'']"
    by code_simp
  have n: "parquet_files ?v (path_join ''out'' ''songplays.parquet'') = None" by code_simp
  have pw: "partition_layout ''out'' ?w" by code_simp
  have s3: "process_song_data example_engine ''in'' ''out'' ?w =
              (?v, snd (process_song_data example_engine ''in'' ''out'' ?w))" by simp
  have l4: "process_log_data example_engine ''in'' ''out'' ?v =
              (?x, snd (process_log_data example_engine ''in'' ''out'' ?v))" by simp
  note T = written_output_partitioning
  from T [THEN conjunct1, THEN mp, OF s]
  have a: "map_option partitioned_by (parquet_files ?v (path_join ''out'' ''songs.parquet''))
             = Some [''year'', ''artist_id''] \<and>
           map_option partitioned_by (parquet_files ?v (path_join ''out'' ''artists.parquet''))
             = Some []" .
  from T [THEN conjunct2, THEN conjunct1, THEN mp, OF l]
  have b: "map_option partitioned_by (parquet_files ?x (path_join ''out'' ''users.parquet''))
             = Some [] \<and>
           map_option partitioned_by (parquet_files ?x (path_join ''out'' ''time.parquet''))
             = Some [''year'', ''month'']" .
  have c: "parquet_files ?x (path_join ''out'' ''songplays.parquet'') = None"
    by (simp only: T [THEN conjunct2, THEN conjunct2, THEN conjunct1] n)
  from T [THEN conjunct2, THEN conjunct2, THEN conjunct2, THEN conjunct1, THEN mp,
          OF conjI [OF pw s3]]
  have pv: "partition_layout ''out'' ?v" .
  from T [THEN conjunct2, THEN conjunct2, THEN conjunct2, THEN conjunct2, THEN mp,
          OF conjI [OF pv l4]]
  have d: "partition_layout ''out'' ?x" .
  from a b c d show ?thesis by blast
qed

section \<open>Where the catalog of the join comes from\<close>

text \<open>
  C6. The script loads the catalog a second time from the JSON source, and persists no
  songplays. For every JSON input there are data sets, lines of output and an
  exception such that a run of \<^verbatim>\<open>process_log_data\<close> in any world with that input adds
  exactly those data sets and lines and ends in that exception, whatever Parquet data
  sets the world holds: no table that was written is read. None of the data sets
  added is under \<^verbatim>\<open>songplays.parquet\<close>, and the run always ends in an exception, so
  the songplays table is never persisted. In a run that has printed the line that
  follows the write of the time table, the exception is the one of reading the song
  data JSON again and deduplicating it on \<^verbatim>\<open>song_id\<close>, or, when that load succeeds, the
  one that the join condition raises on the frame of the events and the catalog so
  loaded.
\<close>

theorem catalog_loaded_from_source:
  "(\<exists>added lines err. added (path_join out ''songplays.parquet'') = None \<and>
      (\<forall>v. json_files v = json_files (w :: world) \<longrightarrow>
         process_log_data e i out v =
           (v\<lparr>parquet_files := parquet_files v ++ added, stdout := stdout v @ lines\<rparr>,
            Some err))) \<and>
   (stdout (fst (process_log_data e i out w))
      = stdout w @ [log_data_path i, ''------>users.parquet is completed'',
                    ''------>time.parquet is completed''] \<longrightarrow>
      (\<exists>df2 err.
         bind_frame (bind_frame (bind_frame (read_json w (log_data_path i)) next_song)
                       add_timestamp) (add_datetime e) = Inr df2 \<and>
         snd (process_log_data e i out w) = Some err \<and>
         (case bind_frame (read_json w (song_data_path i)) (dropDuplicates e ''song_id'') of
            Inl x \<Rightarrow> err = x
          | Inr song_df \<Rightarrow> join_condition df2 song_df = Inl err)))"
proof -
  have 2: "\<exists>df2 err.
         bind_frame (bind_frame (bind_frame (read_json w (log_data_path i)) next_song)
                       add_timestamp) (add_datetime e) = Inr df2 \<and>
         snd (process_log_data e i out w) = Some err \<and>
         (case bind_frame (read_json w (song_data_path i)) (dropDuplicates e ''song_id'') of
            Inl x \<Rightarrow> err = x
          | Inr song_df \<Rightarrow> join_condition df2 song_df = Inl err)"
    if "stdout (fst (process_log_data e i out w))
      = stdout w @ [log_data_path i, ''------>users.parquet is completed'',
                    ''------>time.parquet is completed'']"
  proof -
    from process_log_data_time_written [OF that] obtain ev u df1 df2 tt err where
      f: "bind_frame (read_json w (log_data_path i)) next_song = Inr ev"
         "add_timestamp ev = Inr df1" "add_datetime e df1 = Inr df2"
         "case bind_frame (read_json w (song_data_path i)) (dropDuplicates e ''song_id'') of
              Inl x \<Rightarrow> err = x
            | Inr song_df \<Rightarrow> join_condition df2 song_df = Inl err"
         "snd (process_log_data e i out w) = Some err"
      by fastforce
    from f(1-3) have "bind_frame (bind_frame (bind_frame (read_json w (log_data_path i)) next_song)
                       add_timestamp) (add_datetime e) = Inr df2"
      by (simp add: bind_frame_def)
    with f(4,5) show ?thesis by blast
  qed
  from process_log_data_effect [of out w e i] 2 show ?thesis by blast
qed

theorem catalog_loaded_from_source_witness:
  "snd (process_log_data example_engine ''in'' ''out''
         (fst (process_song_data example_engine ''in'' ''out''
            (example_world [example_event ''NextSong'' ''free'' 200 1541440000000]))))
     = Some ValueError \<and>
   map_option partitioned_by (parquet_files
       ((fst (process_song_data example_engine ''in'' ''out''
            (example_world [example_event ''NextSong'' ''free'' 200 1541440000000])))
        \<lparr>json_files := [log_data_path ''in'' \<mapsto>
            example_events [example_event ''NextSong'' ''free'' 200 1541440000000]]\<rparr>)
       (path_join ''out'' ''songs.parquet'')) = Some [''year'', ''artist_id''] \<and>
   snd (process_log_data example_engine ''in'' ''out''
       ((fst (process_song_data example_engine ''in'' ''out''
            (example_world [example_event ''NextSong'' ''free'' 200 1541440000000])))
        \<lparr>json_files := [log_data_path ''in'' \<mapsto>
            example_events [example_event ''NextSong'' ''free'' 200 1541440000000]]\<rparr>))
     = Some AnalysisException"
proof -
  let ?w = "example_world [example_event ''NextSong'' ''free'' 200 1541440000000]"
  let ?v = "fst (process_song_data example_engine ''in'' ''out'' ?w)"
  let ?x = "?v\<lparr>json_files := [log_data_path ''in'' \<mapsto>
            example_events [example_event ''NextSong'' ''free'' 200 1541440000000]]\<rparr>"
  note T = catalog_loaded_from_source
  have j: "json_files ?v = json_files ?w" by (rule process_song_data_json)
  from T [THEN conjunct1, of "''out''" ?w example_engine "''in''"]
  obtain added lines err where
    e: "\<forall>v. json_files v = json_files ?w \<longrightarrow>
         process_log_data example_engine ''in'' ''out'' v =
           (v\<lparr>parquet_files := parquet_files v ++ added, stdout := stdout v @ lines\<rparr>,
            Some err)"
    by blast
  have "snd (process_log_data example_engine ''in'' ''out'' ?w) = Some ValueError"
    by code_simp
  moreover from e have "snd (process_log_data example_engine ''in'' ''out'' ?w) = Some err"
    by simp
  ultimately have "err = ValueError" by simp
  with e j have a: "snd (process_log_data example_engine ''in'' ''out'' ?v) = Some ValueError"
    by simp
  have b: "map_option partitioned_by (parquet_files ?x (path_join ''out'' ''songs.parquet''))
             = Some [''year'', ''artist_id'']"
    by code_simp
  have l: "stdout (fst (process_log_data example_engine ''in'' ''out'' ?x))
             = stdout ?x @ [log_data_path ''in'', ''------>users.parquet is completed'',
                            ''------>time.parquet is completed'']"
    by code_simp
  have r: "bind_frame (read_json ?x (song_data_path ''in''))
             (dropDuplicates example_engine ''song_id'') = Inl AnalysisException"
    by code_simp
  from T [THEN conjunct2, THEN mp, OF l]
  have c: "snd (process_log_data example_engine ''in'' ''out'' ?x) = Some AnalysisException"
    unfolding r by auto
  from a b c show ?thesis by (intro conjI)
qed

section \<open>Runs on a changed JSON input\<close>

lemma next_song_filter:
  "lift2 val_eq (cell r ''page'') (Inr (StrV ''NextSong'')) = Inr (BoolV True) \<longleftrightarrow> is_next_song r"
proof (cases "cell r ''page''")
  case (Inl x)
  then show ?thesis by (simp add: is_next_song_def lift2_def)
next
  case (Inr v)
  then show ?thesis by (cases v) (simp_all add: is_next_song_def lift2_def)
qed

lemma next_song_eq:
  "next_song df = (if ''page'' \<in> set (columns df)
                   then Inr (df\<lparr>rows := filter is_next_song (rows df)\<rparr>) else Inl AnalysisException)"
  by (simp add: next_song_def getitem_def filter_rows_def next_song_filter)

lemma next_song_cong:
  assumes "columns df' = columns df" "filter is_next_song (rows df') = filter is_next_song (rows df)"
  shows "next_song df' = next_song df"
  using assms by (simp add: next_song_eq)

lemma write_table_upd:
  "write_table t p path l (w\<lparr>json_files := J\<rparr>) =
     (case write_table t p path l w of (w', r) \<Rightarrow> (w'\<lparr>json_files := J\<rparr>, r))"
  by (auto simp: write_table_def write_parquet_def print_def Let_def split: sum.splits)

lemma and_then_upd:
  assumes "r' = (case r of (w', x) \<Rightarrow> (w'\<lparr>json_files := J\<rparr>, x))"
    and "\<And>w1. f' (w1\<lparr>json_files := J\<rparr>) = (case f w1 of (w', x) \<Rightarrow> (w'\<lparr>json_files := J\<rparr>, x))"
  shows "and_then r' f' = (case and_then r f of (w', x) \<Rightarrow> (w'\<lparr>json_files := J\<rparr>, x))"
  using assms by (cases r) (auto simp: and_then_def split: option.splits)

lemma read_json_upd: "read_json (w\<lparr>json_files := J\<rparr>) p =
    (case J p of None \<Rightarrow> Inl AnalysisException | Some df \<Rightarrow> Inr df)"
  by (simp add: read_json_def)

lemma log_data_from_upd:
  assumes "read_json (w\<lparr>json_files := J\<rparr>) (song_data_path i) = read_json w (song_data_path i)"
  shows "log_data_from jc e i out df (w\<lparr>json_files := J\<rparr>) =
     (case log_data_from jc e i out df w of (w', r) \<Rightarrow> (w'\<lparr>json_files := J\<rparr>, r))"
proof (cases "add_datetime e df")
  case (Inl x)
  then show ?thesis by (simp add: log_data_from_def)
next
  case (Inr df2)
  have rest: "(case bind_frame (read_json (w1\<lparr>json_files := J\<rparr>) (song_data_path i))
                          (dropDuplicates e ''song_id'') of
                     Inl err \<Rightarrow> (w1\<lparr>json_files := J\<rparr>, Some err)
                   | Inr song_df \<Rightarrow>
                       (case jc df2 song_df of
                          Inl err \<Rightarrow> (w1\<lparr>json_files := J\<rparr>, Some err)
                        | Inr c \<Rightarrow>
                            write_table (bind_frame (join_inner df2 song_df c) (songplays_table e))
                              [''year'', ''month''] (path_join out ''songplays.parquet'')
                              ''------>songplays.parquet is completed'' (w1\<lparr>json_files := J\<rparr>)))
     = (case (case bind_frame (read_json w1 (song_data_path i))
                          (dropDuplicates e ''song_id'') of
                     Inl err \<Rightarrow> (w1, Some err)
                   | Inr song_df \<Rightarrow>
                       (case jc df2 song_df of
                          Inl err \<Rightarrow> (w1, Some err)
                        | Inr c \<Rightarrow>
                            write_table (bind_frame (join_inner df2 song_df c) (songplays_table e))
                              [''year'', ''month''] (path_join out ''songplays.parquet'')
                              ''------>songplays.parquet is completed'' w1)) of
          (w', x) \<Rightarrow> (w'\<lparr>json_files := J\<rparr>, x))"
    if "json_files w1 = json_files w" for w1
  proof -
    have "read_json (w1\<lparr>json_files := J\<rparr>) (song_data_path i) = read_json w1 (song_data_path i)"
      using assms that by (simp add: read_json_def)
    then show ?thesis
      by (auto simp: write_table_upd split: sum.splits)
  qed
  obtain w1 r1 where 1: "write_table (time_table e df2) [''year'', ''month'']
               (path_join out ''time.parquet'') ''------>time.parquet is completed'' w = (w1, r1)"
    by (metis prod.collapse)
  then have j: "json_files w1 = json_files w" by (rule write_table_json)
  show ?thesis
    using Inr 1 rest [OF j]
    by (cases r1) (simp_all add: log_data_from_def write_table_upd and_then_def)
qed

lemma print_upd: "print l (w\<lparr>json_files := J\<rparr>) = (print l w)\<lparr>json_files := J\<rparr>"
  by (simp add: print_def)

lemma log_data_with_upd:
  assumes A: "bind_frame (read_json (w\<lparr>json_files := J\<rparr>) (log_data_path i)) next_song
                = bind_frame (read_json w (log_data_path i)) next_song"
    and B: "read_json (w\<lparr>json_files := J\<rparr>) (song_data_path i) = read_json w (song_data_path i)"
  shows "log_data_with jc e i out (w\<lparr>json_files := J\<rparr>) =
     (case log_data_with jc e i out w of (w', r) \<Rightarrow> (w'\<lparr>json_files := J\<rparr>, r))"
proof -
  let ?w0 = "print (log_data_path i) w"
  have A0: "bind_frame (read_json (?w0\<lparr>json_files := J\<rparr>) (log_data_path i)) next_song
                = bind_frame (read_json ?w0 (log_data_path i)) next_song"
    using A by (simp add: read_json_def print_def)
  show ?thesis
  proof (cases "bind_frame (read_json ?w0 (log_data_path i)) next_song")
    case (Inl x)
    with A0 show ?thesis
      by (simp add: log_data_with_def log_data_upto_def Let_def print_upd)
  next
    case (Inr df)
    obtain w1 r1 where 1: "write_table (users_table e df) []
          (path_join out ''users.parquet'') ''------>users.parquet is completed'' ?w0 = (w1, r1)"
      by (metis prod.collapse)
    then have "json_files w1 = json_files ?w0" by (rule write_table_json)
    then have j: "json_files w1 = json_files w" by (simp add: print_def)
    have B1: "read_json (w1\<lparr>json_files := J\<rparr>) (song_data_path i) = read_json w1 (song_data_path i)"
      using B j by (simp add: read_json_def)
    have rest: "(case add_timestamp df of
                   Inl err \<Rightarrow> (w1\<lparr>json_files := J\<rparr>, Some err)
                 | Inr df1 \<Rightarrow> log_data_from jc e i out df1 (w1\<lparr>json_files := J\<rparr>))
          = (case (case add_timestamp df of
                   Inl err \<Rightarrow> (w1, Some err)
                 | Inr df1 \<Rightarrow> log_data_from jc e i out df1 w1) of
               (w', r) \<Rightarrow> (w'\<lparr>json_files := J\<rparr>, r))"
      by (simp add: log_data_from_upd [OF B1] split: sum.splits)
    show ?thesis
      using Inr A0 1 rest
      by (cases r1)
         (simp_all add: log_data_with_def log_data_upto_def Let_def print_upd write_table_upd
                        and_then_def)
  qed
qed

section \<open>Events that are not song plays\<close>

text \<open>
  C4. Event rows whose \<^verbatim>\<open>page\<close> is not \<^verbatim>\<open>NextSong\<close> contribute nothing: two event logs
  with the same columns and the same \<^verbatim>\<open>NextSong\<close> rows, whatever their other rows,
  give the same users table, the same time table and the same songplays table (and
  the same lines of output and the same exception, if any), for every join condition,
  the script's own included.
\<close>

theorem other_pages_contribute_nothing:
  assumes "json_files w (log_data_path i) = Some events"
    and "columns events' = columns events"
    and "filter is_next_song (rows events') = filter is_next_song (rows events)"
  shows "outputs (log_data_with jc e i out (w\<lparr>json_files := (json_files w)(log_data_path i \<mapsto> events')\<rparr>))
           = outputs (log_data_with jc e i out w) \<and>
         outputs (process_log_data e i out (w\<lparr>json_files := (json_files w)(log_data_path i \<mapsto> events')\<rparr>))
           = outputs (process_log_data e i out w)"
proof -
  let ?J = "(json_files w)(log_data_path i \<mapsto> events')"
  have ns: "next_song events' = next_song events"
    using assms(2,3) by (rule next_song_cong)
  have A: "bind_frame (read_json (w\<lparr>json_files := ?J\<rparr>) (log_data_path i)) next_song
                = bind_frame (read_json w (log_data_path i)) next_song"
    using assms(1) ns by (simp add: read_json_def bind_frame_def)
  have "song_data_path i \<noteq> log_data_path i"
    by (simp add: song_data_path_def log_data_path_def path_join_inj)
  then have B: "read_json (w\<lparr>json_files := ?J\<rparr>) (song_data_path i) = read_json w (song_data_path i)"
    by (simp add: read_json_def)
  have "outputs (log_data_with c e i out (w\<lparr>json_files := ?J\<rparr>)) = outputs (log_data_with c e i out w)"
    for c
    unfolding log_data_with_upd [OF A B]
    by (cases "log_data_with c e i out w") (simp add: outputs_def)
  then show ?thesis by (simp add: process_log_data_def)
qed

theorem other_pages_contribute_nothing_witness:
  "outputs (log_data_with three_way_and example_engine ''in'' ''out''
     ((example_world [example_event ''NextSong'' ''free'' 200 1541440000000,
                      example_event ''Home'' ''free'' 0 1541440005000])
      \<lparr>json_files := (json_files (example_world
                         [example_event ''NextSong'' ''free'' 200 1541440000000,
                          example_event ''Home'' ''free'' 0 1541440005000]))
           (log_data_path ''in'' \<mapsto>
              example_events [example_event ''NextSong'' ''free'' 200 1541440000000])\<rparr>))
   = outputs (log_data_with three_way_and example_engine ''in'' ''out''
       (example_world [example_event ''NextSong'' ''free'' 200 1541440000000,
                       example_event ''Home'' ''free'' 0 1541440005000]))"
proof -
  let ?rs = "[example_event ''NextSong'' ''free'' 200 1541440000000,
              example_event ''Home'' ''free'' 0 1541440005000]"
  have 1: "json_files (example_world ?rs) (log_data_path ''in'') = Some (example_events ?rs)"
    by code_simp
  have 2: "columns (example_events [example_event ''NextSong'' ''free'' 200 1541440000000])
             = columns (example_events ?rs)"
    by code_simp
  have 3: "filter is_next_song (rows (example_events
              [example_event ''NextSong'' ''free'' 200 1541440000000]))
             = filter is_next_song (rows (example_events ?rs))"
    by code_simp
  from other_pages_contribute_nothing [OF 1 2 3] show ?thesis by (rule conjunct1)
qed

section \<open>Rows and frames that differ in one column\<close>

lemma map_of_replace_other:
  "k \<noteq> n \<Longrightarrow> map_of (map (\<lambda>(k, x). if k = n then (k, v) else (k, x)) r) k = map_of r k"
  by (induction r) auto

lemma map_of_replace_same:
  "n \<in> fst ` set r \<Longrightarrow> map_of (map (\<lambda>(k, x). if k = n then (k, v) else (k, x)) r) n = Some v"
  by (induction r) auto

lemma map_of_set_cell: "map_of (set_cell n v r) k = (if k = n then Some v else map_of r k)"
proof (cases "n \<in> fst ` set r")
  case True
  then show ?thesis
    by (simp add: set_cell_def map_of_replace_other map_of_replace_same)
next
  case False
  then have "map_of r n = None" by (simp add: map_of_eq_None_iff)
  with False show ?thesis by (auto simp: set_cell_def map_add_def split: option.splits)
qed

lemma cell_set_cell: "cell (set_cell n v r) k = (if k = n then v else cell r k)"
  by (simp add: cell_def map_of_set_cell)

lemma eval_col_cong:
  "(\<forall>k \<in> set (col_refs c). cell r k = cell r' k) \<Longrightarrow> eval_col rid r c = eval_col rid r' c"
  by (induction c) simp_all

lemma same_but_timestamp_cell:
  "same_but_timestamp r r' \<Longrightarrow> k \<noteq> ''timestamp'' \<Longrightarrow> cell (r @ q) k = cell (r' @ q) k"
  by (simp add: cell_def map_add_def)

lemma map_result_cong:
  "list_all2 (\<lambda>x y. f x = g y) xs ys \<Longrightarrow> map_result f xs = map_result g ys"
proof (induction rule: list_all2_induct)
  case Nil
  show ?case by simp
next
  case (Cons x xs y ys)
  then show ?case by (simp split: sum.splits)
qed

lemma select_row_cong:
  assumes "\<forall>k \<in> set (concat (map (col_refs \<circ> fst) items)). cell r k = cell r' k"
  shows "select_row items rid r = select_row items rid r'"
proof -
  have "(case x of (c, a) \<Rightarrow> (case eval_col rid r c of
                             Inl e \<Rightarrow> Inl (Py4JJavaError e)
                           | Inr v \<Rightarrow> Inr (a, Inr v)))
        = (case x of (c, a) \<Rightarrow> (case eval_col rid r' c of
                             Inl e \<Rightarrow> Inl (Py4JJavaError e)
                           | Inr v \<Rightarrow> Inr (a, Inr v)))" if "x \<in> set items" for x
  proof (cases x)
    case (Pair c a)
    with that assms have "eval_col rid r c = eval_col rid r' c"
      by (intro eval_col_cong) force
    with Pair show ?thesis by simp
  qed
  then have "list_all2 (\<lambda>x y. (case x of (c, a) \<Rightarrow> (case eval_col rid r c of
                             Inl e \<Rightarrow> Inl (Py4JJavaError e)
                           | Inr v \<Rightarrow> Inr (a, Inr v)))
        = (case y of (c, a) \<Rightarrow> (case eval_col rid r' c of
                             Inl e \<Rightarrow> Inl (Py4JJavaError e)
                           | Inr v \<Rightarrow> Inr (a, Inr v)))) items items"
    unfolding list_all2_same by blast
  then show ?thesis unfolding select_row_def by (rule map_result_cong)
qed

lemma select_cong:
  assumes "\<forall>k \<in> set (concat (map (col_refs \<circ> fst) items)).
             count_list (columns d) k = count_list (columns d') k"
    and "list_all2 (\<lambda>r r'. \<forall>k \<in> set (concat (map (col_refs \<circ> fst) items)). cell r k = cell r' k)
           (rows d) (rows d')"
  shows "select e items d = select e items d'"
proof -
  from assms(2) have len: "length (rows d) = length (rows d')" by (rule list_all2_lengthD)
  have "list_all2 (\<lambda>x y. (case x of (k, r) \<Rightarrow> select_row items (row_id (rows_per_partition e) k) r)
                      = (case y of (k, r) \<Rightarrow> select_row items (row_id (rows_per_partition e) k) r))
          (enumerate 0 (rows d)) (enumerate 0 (rows d'))"
    unfolding list_all2_conv_all_nth
  proof (intro conjI allI impI)
    show "length (enumerate 0 (rows d)) = length (enumerate 0 (rows d'))" using len by simp
  next
    fix n assume n: "n < length (enumerate 0 (rows d))"
    then have "\<forall>k \<in> set (concat (map (col_refs \<circ> fst) items)). cell (rows d ! n) k = cell (rows d' ! n) k"
      using assms(2) by (simp add: list_all2_conv_all_nth)
    then have "select_row items (row_id (rows_per_partition e) n) (rows d ! n)
             = select_row items (row_id (rows_per_partition e) n) (rows d' ! n)"
      by (rule select_row_cong)
    with n len show "(case enumerate 0 (rows d) ! n of
             (k, r) \<Rightarrow> select_row items (row_id (rows_per_partition e) k) r)
          = (case enumerate 0 (rows d') ! n of
             (k, r) \<Rightarrow> select_row items (row_id (rows_per_partition e) k) r)"
      by (simp add: nth_enumerate_eq)
  qed
  then have "map_result (\<lambda>(k, r). select_row items (row_id (rows_per_partition e) k) r)
                (enumerate 0 (rows d))
           = map_result (\<lambda>(k, r). select_row items (row_id (rows_per_partition e) k) r)
                (enumerate 0 (rows d'))"
    by (rule map_result_cong)
  with assms(1) show ?thesis by (simp add: select_def)
qed

lemma same_but_timestamp_append:
  "same_but_timestamp r r' \<Longrightarrow> same_but_timestamp (r @ q) (r' @ q)"
  by (simp add: map_add_def)

lemma same_but_timestamp_cells:
  "same_but_timestamp r r' \<Longrightarrow> \<forall>k \<in> set ks. k \<noteq> ''timestamp''
     \<Longrightarrow> \<forall>k \<in> set ks. cell r k = cell r' k"
  by (simp add: cell_def)

lemma map_result_rel:
  "list_all2 (\<lambda>x y. rel_sum (=) P (f x) (g y)) xs ys
     \<Longrightarrow> rel_sum (=) (list_all2 P) (map_result f xs) (map_result g ys)"
proof (induction rule: list_all2_induct)
  case Nil
  show ?case by simp
next
  case (Cons x xs y ys)
  then show ?case
    by (cases "f x"; cases "g y"; cases "map_result f xs"; cases "map_result g ys") simp_all
qed

lemma join_pair_rel:
  assumes "same_but_timestamp r r'" and "''timestamp'' \<notin> set (col_refs c)"
  shows "rel_sum (=) (\<lambda>x y. same_but_timestamp (fst x) (fst y) \<and> snd x = snd y)
           (join_pair c r q) (join_pair c r' q)"
proof -
  from assms(2) have "\<forall>k \<in> set (col_refs c). k \<noteq> ''timestamp''" by auto
  with same_but_timestamp_append [OF assms(1), of q]
  have "\<forall>k \<in> set (col_refs c). cell (r @ q) k = cell (r' @ q) k"
    by (rule same_but_timestamp_cells)
  then have "eval_col 0 (r @ q) c = eval_col 0 (r' @ q) c" by (rule eval_col_cong)
  with same_but_timestamp_append [OF assms(1), of q] show ?thesis
    by (cases "eval_col 0 (r' @ q) c") (simp_all add: join_pair_def)
qed

lemma list_all2_concat:
  "list_all2 (list_all2 P) xss yss \<Longrightarrow> list_all2 P (concat xss) (concat yss)"
  by (induction rule: list_all2_induct) (simp_all add: list_all2_appendI)

lemma list_all2_filter_snd:
  "list_all2 (\<lambda>x y. Q (fst x) (fst y) \<and> snd x = snd y) xs ys
     \<Longrightarrow> list_all2 Q (map fst (filter snd xs)) (map fst (filter snd ys))"
  by (induction rule: list_all2_induct) simp_all

lemma join_inner_rel:
  assumes "list_all2 same_but_timestamp (rows d) (rows d')"
    and "''timestamp'' \<notin> set (col_refs c)"
  shows "rel_sum (=) (\<lambda>J J'. columns J = columns d @ columns s \<and> columns J' = columns d' @ columns s
                        \<and> list_all2 same_but_timestamp (rows J) (rows J'))
           (join_inner d s c) (join_inner d' s c)"
proof -
  let ?P = "\<lambda>x y. same_but_timestamp (fst x) (fst y) \<and> snd x = (snd y :: bool)"
  have inner: "rel_sum (=) (list_all2 ?P)
      (map_result (join_pair c r) (rows s)) (map_result (join_pair c r') (rows s))"
    if "same_but_timestamp r r'" for r r'
    by (rule map_result_rel) (simp add: list_all2_same join_pair_rel [OF that assms(2)])
  have "list_all2 (\<lambda>r r'. rel_sum (=) (list_all2 ?P)
      (map_result (join_pair c r) (rows s)) (map_result (join_pair c r') (rows s)))
      (rows d) (rows d')"
    by (rule list_all2_mono [OF assms(1)]) (rule inner)
  then have "rel_sum (=) (list_all2 (list_all2 ?P))
      (map_result (\<lambda>r. map_result (join_pair c r) (rows s)) (rows d))
      (map_result (\<lambda>r. map_result (join_pair c r) (rows s)) (rows d'))"
    by (rule map_result_rel)
  then show ?thesis
    unfolding join_inner_def
    by (cases "map_result (\<lambda>r. map_result (join_pair c r) (rows s)) (rows d)";
        cases "map_result (\<lambda>r. map_result (join_pair c r) (rows s)) (rows d')")
       (simp_all add: list_all2_concat list_all2_filter_snd)
qed

lemma timestamp_rows:
  "list_all2 same_but_timestamp
     (rows (withColumn ''datetime'' g ''ts'' (withColumn ''timestamp'' h ''ts'' ev)))
     (rows (withColumn ''datetime'' g ''ts'' ev))"
  by (simp add: withColumn_def list_all2_map1 list_all2_map2 list_all2_same
                map_of_set_cell cell_set_cell)

lemma timestamp_columns:
  "k \<noteq> ''timestamp'' \<Longrightarrow>
     count_list (columns (withColumn ''datetime'' g ''ts'' (withColumn ''timestamp'' h ''ts'' ev))) k
       = count_list (columns (withColumn ''datetime'' g ''ts'' ev)) k"
  by (simp add: withColumn_def)

lemma timestamp_column_names:
  "k \<noteq> ''timestamp'' \<Longrightarrow>
     (k \<in> set (columns (withColumn ''datetime'' g ''ts'' (withColumn ''timestamp'' h ''ts'' ev))))
       = (k \<in> set (columns (withColumn ''datetime'' g ''ts'' ev)))"
  by (simp add: withColumn_def)

lemma time_table_timestamp:
  "time_table e (withColumn ''datetime'' g ''ts'' (withColumn ''timestamp'' h ''ts'' ev))
     = time_table e (withColumn ''datetime'' g ''ts'' ev)"
proof -
  have refs: "\<forall>k \<in> set (concat (map (col_refs \<circ> fst) time_items)). k \<noteq> ''timestamp''"
    by (simp add: time_items_def)
  have "select e time_items (withColumn ''datetime'' g ''ts'' (withColumn ''timestamp'' h ''ts'' ev))
          = select e time_items (withColumn ''datetime'' g ''ts'' ev)"
  proof (rule select_cong)
    show "\<forall>k \<in> set (concat (map (col_refs \<circ> fst) time_items)).
            count_list (columns (withColumn ''datetime'' g ''ts''
                                   (withColumn ''timestamp'' h ''ts'' ev))) k
              = count_list (columns (withColumn ''datetime'' g ''ts'' ev)) k"
      using refs by (auto intro: timestamp_columns)
  next
    show "list_all2 (\<lambda>r r'. \<forall>k \<in> set (concat (map (col_refs \<circ> fst) time_items)). cell r k = cell r' k)
            (rows (withColumn ''datetime'' g ''ts'' (withColumn ''timestamp'' h ''ts'' ev)))
            (rows (withColumn ''datetime'' g ''ts'' ev))"
      by (rule list_all2_mono [OF timestamp_rows]) (rule same_but_timestamp_cells [OF _ refs])
  qed
  then show ?thesis by (simp add: time_table_def)
qed

lemma songplays_timestamp:
  assumes "''timestamp'' \<notin> set (col_refs c)"
  shows "bind_frame (join_inner (withColumn ''datetime'' g ''ts''
                                   (withColumn ''timestamp'' h ''ts'' ev)) s c) (songplays_table e)
       = bind_frame (join_inner (withColumn ''datetime'' g ''ts'' ev) s c) (songplays_table e)"
proof -
  let ?d = "withColumn ''datetime'' g ''ts'' (withColumn ''timestamp'' h ''ts'' ev)"
  let ?d' = "withColumn ''datetime'' g ''ts'' ev"
  have refs: "\<forall>k \<in> set (concat (map (col_refs \<circ> fst) songplays_items)). k \<noteq> ''timestamp''"
    by (simp add: songplays_items_def)
  note rel = join_inner_rel [OF timestamp_rows assms, of g h ev s]
  show ?thesis
  proof (cases "join_inner ?d s c")
    case (Inl x)
    with rel have "join_inner ?d' s c = Inl x" by (cases "join_inner ?d' s c") simp_all
    with Inl show ?thesis by (simp add: bind_frame_def)
  next
    case (Inr J)
    with rel obtain J' where J': "join_inner ?d' s c = Inr J'"
      "columns J = columns ?d @ columns s" "columns J' = columns ?d' @ columns s"
      "list_all2 same_but_timestamp (rows J) (rows J')"
      by (cases "join_inner ?d' s c") auto
    have "select e songplays_items J = select e songplays_items J'"
    proof (rule select_cong)
      show "\<forall>k \<in> set (concat (map (col_refs \<circ> fst) songplays_items)).
              count_list (columns J) k = count_list (columns J') k"
        using refs unfolding J'(2,3) by (auto simp: timestamp_columns)
    next
      show "list_all2 (\<lambda>r r'. \<forall>k \<in> set (concat (map (col_refs \<circ> fst) songplays_items)).
                cell r k = cell r' k) (rows J) (rows J')"
        by (rule list_all2_mono [OF J'(4)]) (rule same_but_timestamp_cells [OF _ refs])
    qed
    with Inr J'(1) show ?thesis by (simp add: bind_frame_def songplays_table_def)
  qed
qed

lemma join_condition_names:
  assumes "\<forall>k. k \<noteq> ''timestamp'' \<longrightarrow> (k \<in> set (columns d)) = (k \<in> set (columns d'))"
  shows "join_condition d s = join_condition d' s"
proof -
  from assms have "(''song'' \<in> set (columns d)) = (''song'' \<in> set (columns d'))"
    "(''artist'' \<in> set (columns d)) = (''artist'' \<in> set (columns d'))"
    "(''length'' \<in> set (columns d)) = (''length'' \<in> set (columns d'))"
    by simp_all
  then show ?thesis by (simp add: join_condition_def getattr_def)
qed

lemma log_data_from_timestamp:
  assumes jc1: "\<forall>d d' s. (\<forall>k. k \<noteq> ''timestamp'' \<longrightarrow> (k \<in> set (columns d)) = (k \<in> set (columns d')))
                  \<longrightarrow> jc d s = jc d' s"
    and jc2: "\<forall>d s c. jc d s = Inr c \<longrightarrow> ''timestamp'' \<notin> set (col_refs c)"
    and ts: "''ts'' \<in> set (columns ev)"
  shows "log_data_from jc e i out (withColumn ''timestamp'' get_timestamp ''ts'' ev) w
           = log_data_from jc e i out ev w"
proof -
  let ?g = "get_datetime (tz_offset e)"
  let ?d = "withColumn ''datetime'' ?g ''ts'' (withColumn ''timestamp'' get_timestamp ''ts'' ev)"
  let ?d' = "withColumn ''datetime'' ?g ''ts'' ev"
  from ts have a: "add_datetime e (withColumn ''timestamp'' get_timestamp ''ts'' ev) = Inr ?d"
    by (simp add: add_datetime_def getattr_def withColumn_def)
  from ts have a': "add_datetime e ev = Inr ?d'"
    by (simp add: add_datetime_def getattr_def)
  have jc: "jc ?d s = jc ?d' s" for s
    using jc1 by (simp add: timestamp_column_names)
  have rest: "(case jc ?d s of
                 Inl err \<Rightarrow> (w1, Some err)
               | Inr c \<Rightarrow> write_table (bind_frame (join_inner ?d s c) (songplays_table e))
                            [''year'', ''month''] (path_join out ''songplays.parquet'')
                            ''------>songplays.parquet is completed'' w1)
            = (case jc ?d' s of
                 Inl err \<Rightarrow> (w1, Some err)
               | Inr c \<Rightarrow> write_table (bind_frame (join_inner ?d' s c) (songplays_table e))
                            [''year'', ''month''] (path_join out ''songplays.parquet'')
                            ''------>songplays.parquet is completed'' w1)" for s w1
  proof (cases "jc ?d' s")
    case (Inl x)
    with jc [of s] show ?thesis by simp
  next
    case (Inr c)
    with jc2 have "''timestamp'' \<notin> set (col_refs c)" by blast
    then have "bind_frame (join_inner ?d s c) (songplays_table e)
                 = bind_frame (join_inner ?d' s c) (songplays_table e)"
      by (rule songplays_timestamp)
    with Inr jc [of s] show ?thesis by simp
  qed
  show ?thesis
    unfolding log_data_from_def a a' by (simp add: time_table_timestamp rest cong: sum.case_cong)
qed

section \<open>The timestamp column\<close>

text \<open>
  C10. No select list of the script refers to the column \<^verbatim>\<open>timestamp\<close>, and the script
  with the two lines that add it removed has the same outcome for every input: the
  same users, time and songplays data sets, the same lines of output, the same
  exception if any. This holds for the script as it is and for every join condition
  that is built from the column names of the two frames other than \<^verbatim>\<open>timestamp\<close> and
  does not refer to \<^verbatim>\<open>timestamp\<close>.
\<close>

theorem timestamp_column_unused:
  "''timestamp'' \<notin> set (concat (map (col_refs \<circ> fst) (time_items @ songplays_items))) \<and>
   process_log_data e i out w = log_data_without_timestamp join_condition e i out w \<and>
   ((\<forall>d d' s. (\<forall>k. k \<noteq> ''timestamp'' \<longrightarrow> (k \<in> set (columns d)) = (k \<in> set (columns d')))
        \<longrightarrow> jc d s = jc d' s) \<and>
    (\<forall>d s c. jc d s = Inr c \<longrightarrow> ''timestamp'' \<notin> set (col_refs c))
    \<longrightarrow> log_data_with jc e i out w = log_data_without_timestamp jc e i out w)"
proof -
  have gen: "log_data_with c e i out w = log_data_without_timestamp c e i out w"
    if jc1: "\<forall>d d' s. (\<forall>k. k \<noteq> ''timestamp'' \<longrightarrow> (k \<in> set (columns d)) = (k \<in> set (columns d')))
                  \<longrightarrow> c d s = c d' s"
    and jc2: "\<forall>d s x. c d s = Inr x \<longrightarrow> ''timestamp'' \<notin> set (col_refs x)" for c
  proof -
    have "(case add_timestamp ev of
             Inl err \<Rightarrow> (w1, Some err)
           | Inr df1 \<Rightarrow> log_data_from c e i out df1 w1) = log_data_from c e i out ev w1" for ev w1
    proof (cases "''ts'' \<in> set (columns ev)")
      case True
      then show ?thesis
        by (simp add: add_timestamp_def getattr_def log_data_from_timestamp [OF jc1 jc2 True])
    next
      case False
      then show ?thesis
        by (simp add: add_timestamp_def add_datetime_def getattr_def log_data_from_def)
    qed
    then show ?thesis
      by (simp add: log_data_with_def log_data_without_timestamp_def)
  qed
  have 1: "''timestamp'' \<notin> set (concat (map (col_refs \<circ> fst) (time_items @ songplays_items)))"
    by (simp add: time_items_def songplays_items_def)
  have 2: "process_log_data e i out w = log_data_without_timestamp join_condition e i out w"
    unfolding process_log_data_def
    by (rule gen) (auto simp: join_condition_raises intro: join_condition_names)
  from 1 2 gen show ?thesis by blast
qed

theorem timestamp_column_unused_witness:
  "log_data_with three_way_and example_engine ''in'' ''out''
      (example_world [example_event ''NextSong'' ''free'' 200 1541440000000])
   = log_data_without_timestamp three_way_and example_engine ''in'' ''out''
      (example_world [example_event ''NextSong'' ''free'' 200 1541440000000])"
proof -
  have 1: "\<forall>d d' s. (\<forall>k. k \<noteq> ''timestamp'' \<longrightarrow> (k \<in> set (columns d)) = (k \<in> set (columns d')))
             \<longrightarrow> three_way_and d s = three_way_and d' s"
    by (simp add: three_way_and_def)
  have 2: "\<forall>d s c. three_way_and d s = Inr c \<longrightarrow> ''timestamp'' \<notin> set (col_refs c)"
    by (auto simp: three_way_and_def)
  from timestamp_column_unused [THEN conjunct2, THEN conjunct2, THEN mp, OF conjI [OF 1 2]]
  show ?thesis .
qed

section \<open>Calendar: days and dates\<close>










lemma length_dec [simp]: "length (dec2 n) = 2" "length (dec4 n) = 4" "length (dec6 n) = 6"
  by (simp_all add: dec2_def dec4_def dec6_def)




section \<open>The start time\<close>




end
